theory Spec2Isabelle
  imports Complex_Main "HOL-Library.Sublist" "HOL-Library.AList" "HOL-Library.Monad_Syntax"
begin

section \<open>Python strings\<close>

text \<open>
  A Python \<open>str\<close> is modelled as a \<open>string\<close> (a list of \<open>char\<close>), each \<open>char\<close> read as the
  Unicode code point of the same number, so the model covers the strings over U+0000 to
  U+00FF.  The methods below are the ones the backend calls: \<open>strip\<close>, \<open>lower\<close>, \<open>replace\<close>,
  \<open>split\<close>, \<open>find\<close>, \<open>rfind\<close>, slicing and the substring test \<open>in\<close> (which is
  \<^const>\<open>sublist\<close>).
\<close>

text \<open>
  \<open>str.isspace\<close> on that range: the ASCII whitespace, the four separators U+001C to U+001F,
  the next-line control U+0085 and the no-break space U+00A0.
\<close>

definition isspace :: "char \<Rightarrow> bool" where
  "isspace c = (c \<in> set [CHR 0x09, CHR 0x0A, CHR 0x0B, CHR 0x0C, CHR 0x0D,
                          CHR 0x1C, CHR 0x1D, CHR 0x1E, CHR 0x1F, CHR '' '',
                          CHR 0x85, CHR 0xA0])"

text \<open>
  \<open>str.lower\<close> on that range: the letters A to Z, and the upper-case letters U+00C0 to
  U+00DE (without the multiplication sign U+00D7), go to the code point 32 above; every
  other character, the sharp s U+00DF among them, stays as it is.
\<close>

definition upper_latin :: string where
  "upper_latin =
     [CHR 0xC0, CHR 0xC1, CHR 0xC2, CHR 0xC3, CHR 0xC4, CHR 0xC5, CHR 0xC6, CHR 0xC7,
      CHR 0xC8, CHR 0xC9, CHR 0xCA, CHR 0xCB, CHR 0xCC, CHR 0xCD, CHR 0xCE, CHR 0xCF,
      CHR 0xD0, CHR 0xD1, CHR 0xD2, CHR 0xD3, CHR 0xD4, CHR 0xD5, CHR 0xD6, CHR 0xD8,
      CHR 0xD9, CHR 0xDA, CHR 0xDB, CHR 0xDC, CHR 0xDD, CHR 0xDE]"

definition lower_latin :: string where
  "lower_latin =
     [CHR 0xE0, CHR 0xE1, CHR 0xE2, CHR 0xE3, CHR 0xE4, CHR 0xE5, CHR 0xE6, CHR 0xE7,
      CHR 0xE8, CHR 0xE9, CHR 0xEA, CHR 0xEB, CHR 0xEC, CHR 0xED, CHR 0xEE, CHR 0xEF,
      CHR 0xF0, CHR 0xF1, CHR 0xF2, CHR 0xF3, CHR 0xF4, CHR 0xF5, CHR 0xF6, CHR 0xF8,
      CHR 0xF9, CHR 0xFA, CHR 0xFB, CHR 0xFC, CHR 0xFD, CHR 0xFE]"

definition lower_char :: "char \<Rightarrow> char" where
  "lower_char c =
     (case map_of (zip (''ABCDEFGHIJKLMNOPQRSTUVWXYZ'' @ upper_latin)
                       (''abcdefghijklmnopqrstuvwxyz'' @ lower_latin)) c of
        Some d \<Rightarrow> d
      | None \<Rightarrow> c)"

definition strip :: "string \<Rightarrow> string" where
  "strip s = rev (dropWhile isspace (rev (dropWhile isspace s)))"

definition lower :: "string \<Rightarrow> string" where
  "lower s = map lower_char s"

text \<open>
  The specification speaks of case-folding where the code calls \<open>lower\<close>.
  \<open>spec_casefold\<close> follows the specification's word: it is \<open>str.casefold\<close> on the same range,
  given as the list of the code points of the folded string.  It differs from \<open>lower\<close> at
  two characters: the sharp s U+00DF folds to "ss", and the micro sign U+00B5 to the Greek
  letter U+03BC.
\<close>

definition casefold_char :: "char \<Rightarrow> nat list" where
  "casefold_char c =
     (if c = CHR 0xDF then [of_char (CHR ''s''), of_char (CHR ''s'')]
      else if c = CHR 0xB5 then [0x3BC]
      else [of_char (lower_char c)])"

definition spec_casefold :: "string \<Rightarrow> nat list" where
  "spec_casefold s = concat (map casefold_char s)"

text \<open>
  \<open>s.replace(old, new)\<close>: every non-overlapping occurrence of \<open>old\<close>, leftmost first,
  in one pass.  With an empty \<open>old\<close> Python puts \<open>new\<close> around every character.
\<close>

function replace_all :: "string \<Rightarrow> string \<Rightarrow> string \<Rightarrow> string" where
  "replace_all old new [] = []"
| "replace_all old new (c # cs) =
     (if old \<noteq> [] \<and> prefix old (c # cs)
      then new @ replace_all old new (drop (length old) (c # cs))
      else c # replace_all old new cs)"
  by pat_completeness auto
termination
  by (relation "measure (\<lambda>(old, new, s). length s)") auto

definition py_replace :: "string \<Rightarrow> string \<Rightarrow> string \<Rightarrow> string" where
  "py_replace old new s =
     (if old = [] then new @ concat (map (\<lambda>c. c # new) s) else replace_all old new s)"

text \<open>\<open>s.split()\<close>: the maximal runs of non-whitespace characters, in order.\<close>

fun split_from :: "string \<Rightarrow> string \<Rightarrow> string list" where
  "split_from cur [] = (if cur = [] then [] else [cur])"
| "split_from cur (c # cs) =
     (if isspace c then (if cur = [] then split_from [] cs else cur # split_from [] cs)
      else split_from (cur @ [c]) cs)"

definition split_ws :: "string \<Rightarrow> string list" where
  "split_ws s = split_from [] s"

text \<open>\<open>sep.join(xs)\<close> and the last element of \<open>s.split("/")\<close>.\<close>

fun join :: "string \<Rightarrow> string list \<Rightarrow> string" where
  "join sep [] = []"
| "join sep [x] = x"
| "join sep (x # y # ys) = x @ sep @ join sep (y # ys)"

definition last_segment :: "string \<Rightarrow> string" where
  "last_segment s = rev (takeWhile (\<lambda>c. c \<noteq> CHR ''/'') (rev s))"

text \<open>
  \<open>s.find(sub)\<close>, \<open>s.find(sub, start)\<close> and \<open>s.rfind(sub)\<close> give an index or \<open>-1\<close>;
  \<open>s[a:b]\<close> is a slice whose negative bounds count from the end.
\<close>

fun find_idx :: "string \<Rightarrow> string \<Rightarrow> nat option" where
  "find_idx sub [] = (if sub = [] then Some 0 else None)"
| "find_idx sub (c # cs) =
     (if prefix sub (c # cs) then Some 0 else map_option Suc (find_idx sub cs))"

fun rfind_idx :: "string \<Rightarrow> string \<Rightarrow> nat option" where
  "rfind_idx sub [] = (if sub = [] then Some 0 else None)"
| "rfind_idx sub (c # cs) =
     (case rfind_idx sub cs of
        Some i \<Rightarrow> Some (Suc i)
      | None \<Rightarrow> if prefix sub (c # cs) then Some 0 else None)"

definition py_find :: "string \<Rightarrow> string \<Rightarrow> int" where
  "py_find s sub = (case find_idx sub s of None \<Rightarrow> -1 | Some i \<Rightarrow> int i)"

definition py_find_from :: "string \<Rightarrow> string \<Rightarrow> int \<Rightarrow> int" where
  "py_find_from s sub start =
     (let n = int (length s);
          a = (if start < 0 then max 0 (n + start) else start)
      in if a > n then -1
         else (case find_idx sub (drop (nat a) s) of None \<Rightarrow> -1 | Some i \<Rightarrow> a + int i))"

definition py_rfind :: "string \<Rightarrow> string \<Rightarrow> int" where
  "py_rfind s sub = (case rfind_idx sub s of None \<Rightarrow> -1 | Some i \<Rightarrow> int i)"

definition py_slice :: "string \<Rightarrow> int \<Rightarrow> int \<Rightarrow> string" where
  "py_slice s a b =
     (let n = int (length s);
          a' = (if a < 0 then max 0 (n + a) else min a n);
          b' = (if b < 0 then max 0 (n + b) else min b n)
      in take (nat (b' - a')) (drop (nat a') s))"

section \<open>Values produced by \<open>json.loads\<close>\<close>

text \<open>
  A parsed JSON document: \<open>None\<close>, \<open>bool\<close>, \<open>int\<close>, \<open>float\<close>, \<open>str\<close>,
  \<open>list\<close> and \<open>dict\<close> (keys in insertion order, looked up with \<^const>\<open>map_of\<close>).
  A float is modelled by the real number it denotes.
\<close>

datatype json =
    JNull
  | JBool bool
  | JInt int
  | JFloat real
  | JStr string
  | JArr "json list"
  | JObj "(string \<times> json) list"

section \<open>The result schema (\<open>backend/schemas.py\<close>)\<close>

text \<open>The two models, with the fields and types \<open>schemas.py\<close> declares.\<close>

record Paper =
  title :: string
  pdf_link :: string
  authors :: string
  summary :: string
  matching_score :: "real option"

record ResearchResponse =
  query :: string
  total_results :: int
  papers :: "Paper list"

text \<open>
  The backend calls library functions that are not its own code: \<open>json.loads\<close> (\<open>None\<close>
  stands for \<open>JSONDecodeError\<close>), pydantic's coercion of an input value to the annotated
  field type \<open>str\<close>, \<open>int\<close> or \<open>float\<close> (\<open>None\<close> stands for a type error of that field), and
  \<open>model_dump_json\<close>.  They are the fields of a \<open>pylib\<close>, which the functions below take as
  a parameter; every theorem holds for any of them.
\<close>

record pylib =
  json_loads :: "string \<Rightarrow> json option"
  coerce_str :: "json \<Rightarrow> string option"
  coerce_int :: "json \<Rightarrow> int option"
  coerce_float :: "json \<Rightarrow> real option"
  model_dump_json :: "ResearchResponse \<Rightarrow> string"

text \<open>
  Validation of a model from a dictionary of field values; \<open>None\<close> is pydantic's
  \<open>ValidationError\<close> (or the \<open>TypeError\<close> of \<open>Model(**x)\<close> when \<open>x\<close> is no dictionary).
  A field declared with \<open>...\<close> is required; unknown keys are ignored.
\<close>

definition as_dict :: "json \<Rightarrow> (string \<times> json) list option" where
  "as_dict j = (case j of JObj kv \<Rightarrow> Some kv | _ \<Rightarrow> None)"

definition required_str :: "pylib \<Rightarrow> (string \<times> json) list \<Rightarrow> string \<Rightarrow> string option" where
  "required_str L kv name = (case map_of kv name of None \<Rightarrow> None | Some v \<Rightarrow> coerce_str L v)"

definition required_int :: "pylib \<Rightarrow> (string \<times> json) list \<Rightarrow> string \<Rightarrow> int option" where
  "required_int L kv name = (case map_of kv name of None \<Rightarrow> None | Some v \<Rightarrow> coerce_int L v)"

text \<open>
  \<open>matching_score: Optional[float] = Field(default=None, ge=0.0, le=1.0)\<close>: an absent key
  gives the default, \<open>None\<close> is accepted as it is, any other value is coerced to a float
  and then checked against both bounds.
\<close>

definition validate_matching_score :: "pylib \<Rightarrow> json option \<Rightarrow> real option option" where
  "validate_matching_score L field =
     (case field of
        None \<Rightarrow> Some None
      | Some v \<Rightarrow>
          if v = JNull then Some None
          else (case coerce_float L v of
                  None \<Rightarrow> None
                | Some x \<Rightarrow> if 0 \<le> x \<and> x \<le> 1 then Some (Some x) else None))"

definition validate_Paper :: "pylib \<Rightarrow> json \<Rightarrow> Paper option" where
  "validate_Paper L j =
     do {
       kv \<leftarrow> as_dict j;
       t \<leftarrow> required_str L kv ''title'';
       l \<leftarrow> required_str L kv ''pdf_link'';
       a \<leftarrow> required_str L kv ''authors'';
       s \<leftarrow> required_str L kv ''summary'';
       m \<leftarrow> validate_matching_score L (map_of kv ''matching_score'');
       Some \<lparr>title = t, pdf_link = l, authors = a, summary = s, matching_score = m\<rparr>
     }"

text \<open>\<open>papers: list[Paper] = Field(default_factory=list)\<close>.\<close>

definition validate_papers :: "pylib \<Rightarrow> json option \<Rightarrow> Paper list option" where
  "validate_papers L field =
     (case field of
        None \<Rightarrow> Some []
      | Some v \<Rightarrow> (case v of JArr items \<Rightarrow> those (map (validate_Paper L) items) | _ \<Rightarrow> None))"

definition validate_ResearchResponse :: "pylib \<Rightarrow> json \<Rightarrow> ResearchResponse option" where
  "validate_ResearchResponse L j =
     do {
       kv \<leftarrow> as_dict j;
       q \<leftarrow> required_str L kv ''query'';
       n \<leftarrow> required_int L kv ''total_results'';
       ps \<leftarrow> validate_papers L (map_of kv ''papers'');
       Some \<lparr>query = q, total_results = n, papers = ps\<rparr>
     }"

section \<open>The lookup adapter (\<open>backend/tools.py\<close>)\<close>

definition noise_phrases :: "string list" where
  "noise_phrases =
     [''show me papers on'', ''show me papers about'',
      ''find papers on'', ''find papers about'',
      ''search for papers on'', ''search for papers about'',
      ''search for'', ''find me'', ''show me'',
      ''papers on'', ''papers about'',
      ''research on'', ''research about'',
      ''i want to find'', ''i want to see'',
      ''can you find'', ''can you show'',
      ''looking for'', ''look for'']"

text \<open>The first half of \<open>build_arxiv_query\<close>: the cleaned query.\<close>

definition clean_query :: "string \<Rightarrow> string" where
  "clean_query q0 =
     (let q = lower (strip q0);
          cleaned = strip (fold (\<lambda>phrase acc. py_replace phrase [] acc) noise_phrases q)
      in if cleaned = [] then q else cleaned)"

definition is_likely_title :: "string \<Rightarrow> bool" where
  "is_likely_title cq =
     (let ws = split_ws cq
      in sublist '':'' cq \<or>
         (length ws \<ge> 5 \<and> \<not> list_ex (\<lambda>w. sublist w cq) [''how'', ''what'', ''why'', ''which'']))"

definition build_arxiv_query :: "string \<Rightarrow> string" where
  \<open>build_arxiv_query q0 =
     (let cq = clean_query q0
      in if is_likely_title cq then ''ti:"'' @ cq @ ''" OR abs:"'' @ cq @ ''"''
         else ''ti:'' @ cq @ '' OR abs:'' @ cq)\<close>

text \<open>
  One \<open>arxiv.Result\<close> as the provider returns it (the fields the adapter reads), and the
  provider itself: a function from the search expression and the result limit to the
  records or to the exception it raised.
\<close>

record arxiv_result =
  r_title :: string
  r_pdf_url :: string
  r_authors :: "string list"
  r_summary :: string
  r_published :: "string option"
  r_entry_id :: string

datatype provider_error =
    HTTPError string
  | UnexpectedEmptyPageError string
  | OtherError string

datatype py_error = ValueError string | RuntimeError string

datatype log_level = INFO | WARNING | ERROR

datatype event = Log log_level | ProviderCall string int

type_synonym provider = "string \<Rightarrow> int \<Rightarrow> provider_error + arxiv_result list"

definition paper_data :: "arxiv_result \<Rightarrow> json" where
  "paper_data r =
     JObj [(''title'', JStr (r_title r)),
           (''pdf_link'', JStr (r_pdf_url r)),
           (''authors'', JStr (join '', '' (r_authors r))),
           (''summary'', JStr (r_summary r)),
           (''published'', (case r_published r of Some d \<Rightarrow> JStr d | None \<Rightarrow> JNull)),
           (''arxiv_id'', JStr (last_segment (r_entry_id r)))]"

text \<open>
  \<open>search_arxiv\<close> returns its result or the exception it raises, and the trace of what it
  did: the log records and the request to the provider.
\<close>

definition search_arxiv :: "provider \<Rightarrow> string \<Rightarrow> int \<Rightarrow> (py_error + json list) \<times> event list" where
  "search_arxiv arxiv q max_results =
     (if q = [] \<or> strip q = [] then (Inl (ValueError ''Query cannot be empty''), [])
      else if max_results < 1 then (Inl (ValueError ''max_results must be at least 1''), [])
      else
        (let (max_results, trace) =
               (if max_results > 100 then (100, [Log WARNING]) else (max_results, []));
             search_query = build_arxiv_query q;
             trace = trace @ [Log INFO, ProviderCall search_query max_results]
         in case arxiv search_query max_results of
              Inr results \<Rightarrow> (Inr (map paper_data results), trace @ [Log INFO])
            | Inl (HTTPError e) \<Rightarrow>
                (Inl (RuntimeError (''Failed to fetch papers from arXiv: HTTP error - '' @ e)),
                 trace @ [Log ERROR])
            | Inl (UnexpectedEmptyPageError e) \<Rightarrow>
                (Inl (RuntimeError (''arXiv returned unexpected empty response: '' @ e)),
                 trace @ [Log ERROR])
            | Inl (OtherError e) \<Rightarrow>
                (Inl (RuntimeError (''Failed to search arXiv: '' @ e)), trace @ [Log ERROR])))"

section \<open>The orchestration pipeline (\<open>backend/agents.py\<close>)\<close>

text \<open>
  A message of the finished exchange: its \<open>content\<close> is a string, or something else (a tool
  call, a tool result), or the message has no \<open>content\<close> and \<open>str(message)\<close> is used.
\<close>

datatype message = TextContent string | OtherContent | NoContent string

definition content_str :: "message \<Rightarrow> string option" where
  "content_str m = (case m of TextContent s \<Rightarrow> Some s | OtherContent \<Rightarrow> None | NoContent s \<Rightarrow> Some s)"

definition is_candidate :: "message \<Rightarrow> bool" where
  "is_candidate m =
     (case content_str m of
        Some content \<Rightarrow> sublist ''{'' content \<and> sublist ''papers'' content
      | None \<Rightarrow> False)"

text \<open>The loop over \<open>reversed(result.messages)\<close>, with \<open>final_output = ""\<close> before it.\<close>

fun scan_messages :: "message list \<Rightarrow> string" where
  "scan_messages [] = []"
| "scan_messages (m # ms) = (if is_candidate m then the (content_str m) else scan_messages ms)"

definition final_output :: "message list \<Rightarrow> string" where
  "final_output messages = scan_messages (rev messages)"

text \<open>The text handed to \<open>json.loads\<close> inside the \<open>try\<close> block.\<close>

definition clean_output :: "string \<Rightarrow> string" where
  "clean_output final =
     (let out = strip final;
          out = strip (py_replace ''TERMINATE'' [] out);
          start_idx = py_find out ''{'';
          end_idx = py_rfind out ''}'' + 1
      in if start_idx \<noteq> -1 \<and> end_idx > start_idx then py_slice out start_idx end_idx else out)"

text \<open>The \<open>try\<close> block: any exception in it returns \<open>final_output\<close>.\<close>

definition validate_output :: "pylib \<Rightarrow> string \<Rightarrow> string" where
  "validate_output L final =
     (case json_loads L (clean_output final) of
        None \<Rightarrow> final
      | Some parsed \<Rightarrow>
          (case validate_ResearchResponse L parsed of
             None \<Rightarrow> final
           | Some response \<Rightarrow> model_dump_json L response))"

text \<open>
  The two-agent exchange \<open>team.run(task=task)\<close>, with the creation of the model client and
  of the agents before it, is a function from the task to the transcript, or to the
  exception that ends the run (a missing API key, a failure of the model backend or of the
  lookup adapter).
\<close>

type_synonym team = "string \<Rightarrow> py_error + message list"

definition run_research_workflow :: "pylib \<Rightarrow> team \<Rightarrow> string \<Rightarrow> py_error + string" where
  "run_research_workflow L team q =
     (let task = ''Please search for academic papers about: '' @ q
      in case team task of
           Inl e \<Rightarrow> Inl e
         | Inr messages \<Rightarrow> Inr (validate_output L (final_output messages)))"

section \<open>The result cache (\<open>backend/main.py\<close>)\<close>

text \<open>
  \<open>_cache: dict[str, dict]\<close> maps a normalised query to \<open>{"result": data, "timestamp": time}\<close>.
  The dictionary is an association list with distinct keys, so that \<open>len(_cache)\<close> is its
  length; \<open>time.time()\<close> is passed in as \<open>now\<close>.
\<close>

record cache_entry =
  result :: json
  timestamp :: real

type_synonym cache = "(string \<times> cache_entry) list"

record stats =
  total_entries :: nat
  valid_entries :: nat
  ttl_seconds :: real

definition CACHE_TTL_SECONDS :: real where
  "CACHE_TTL_SECONDS = 3600"

definition normalize_cache_key :: "string \<Rightarrow> string" where
  "normalize_cache_key q = lower (strip q)"

definition cache_get :: "real \<Rightarrow> string \<Rightarrow> cache \<Rightarrow> json option \<times> cache" where
  "cache_get now q c =
     (let key = normalize_cache_key q in
      case map_of c key of
        None \<Rightarrow> (None, c)
      | Some entry \<Rightarrow>
          (let age = now - timestamp entry in
           if age > CACHE_TTL_SECONDS then (None, AList.delete key c)
           else (Some (result entry), c)))"

definition cache_set :: "real \<Rightarrow> string \<Rightarrow> json \<Rightarrow> cache \<Rightarrow> cache" where
  "cache_set now q res c =
     (let key = normalize_cache_key q in
      AList.update key \<lparr>result = res, timestamp = now\<rparr> c)"

definition cache_stats :: "real \<Rightarrow> cache \<Rightarrow> stats" where
  "cache_stats now c =
     (let valid = length (filter (\<lambda>entry. now - timestamp entry \<le> CACHE_TTL_SECONDS) (map snd c))
      in \<lparr>total_entries = length c, valid_entries = valid, ttl_seconds = CACHE_TTL_SECONDS\<rparr>)"

text \<open>\<open>clear_cache\<close> returns the count its message reports, and the new (empty) cache.\<close>

definition clear_cache :: "cache \<Rightarrow> nat \<times> cache" where
  "clear_cache c = (let count = length c in (count, []))"

section \<open>The boundary service (\<open>backend/main.py\<close>)\<close>

text \<open>Python's truth value of a parsed document, as \<open>if cached:\<close> and \<open>if extracted:\<close> test it.\<close>

definition truthy :: "json \<Rightarrow> bool" where
  "truthy j =
     (case j of
        JNull \<Rightarrow> False
      | JBool b \<Rightarrow> b
      | JInt i \<Rightarrow> i \<noteq> 0
      | JFloat x \<Rightarrow> x \<noteq> 0
      | JStr s \<Rightarrow> s \<noteq> []
      | JArr xs \<Rightarrow> xs \<noteq> []
      | JObj kv \<Rightarrow> kv \<noteq> [])"

text \<open>
  The two branches of \<open>extract_json_from_text\<close> that remove a Markdown fence differ only in
  the opening fence they look for; \<open>strip_fence\<close> is their common body.
\<close>

definition strip_fence :: "string \<Rightarrow> string \<Rightarrow> string" where
  "strip_fence fence clean_text =
     (let start = py_find clean_text fence + int (length fence);
          end = py_find_from clean_text ''```'' start
      in if end > start then strip (py_slice clean_text start end) else clean_text)"

definition extract_json_from_text :: "pylib \<Rightarrow> string \<Rightarrow> json option" where
  "extract_json_from_text L text =
     (let clean_text = strip text;
          clean_text =
            (if sublist ''```json'' clean_text then strip_fence ''```json'' clean_text
             else if sublist ''```'' clean_text then strip_fence ''```'' clean_text
             else clean_text);
          start_idx = py_find clean_text ''{'';
          end_idx = py_rfind clean_text ''}'' + 1
      in if start_idx \<noteq> -1 \<and> end_idx > start_idx
         then json_loads L (py_slice clean_text start_idx end_idx)
         else None)"

text \<open>
  What the endpoint gives its caller: the response, an \<open>HTTPException\<close> with its status
  code and the fixed part of its detail, or the \<open>ValidationError\<close> that escapes when a
  cached value does not validate (raised outside the \<open>try\<close>).
\<close>

datatype outcome =
    Response ResearchResponse
  | HTTPException nat string
  | Unhandled

text \<open>
  \<open>research\<close>: \<open>t_get\<close> and \<open>t_set\<close> are the clock readings of \<open>cache_get\<close> and \<open>cache_set\<close>.
  An \<open>HTTPException\<close> raised inside the \<open>JSONDecodeError\<close> handler passes through the outer
  \<open>except HTTPException\<close>; any other exception raised there is caught by the outer
  \<open>except Exception\<close>.
\<close>

definition research :: "pylib \<Rightarrow> team \<Rightarrow> real \<Rightarrow> real \<Rightarrow> string \<Rightarrow> cache \<Rightarrow> outcome \<times> cache" where
  "research L team t_get t_set q c0 =
     (let (cached, c) = cache_get t_get q c0
      in if (case cached of Some d \<Rightarrow> truthy d | None \<Rightarrow> False)
         then (case validate_ResearchResponse L (the cached) of
                 Some response \<Rightarrow> (Response response, c)
               | None \<Rightarrow> (Unhandled, c))
         else
           (case run_research_workflow L team q of
              Inl e \<Rightarrow> (HTTPException 500 ''Research workflow failed'', c)
            | Inr res \<Rightarrow>
                (case json_loads L res of
                   Some parsed_result \<Rightarrow>
                     (case validate_ResearchResponse L parsed_result of
                        Some response \<Rightarrow> (Response response, cache_set t_set q parsed_result c)
                      | None \<Rightarrow> (HTTPException 500 ''Response validation failed'', c))
                 | None \<Rightarrow>
                     (case extract_json_from_text L res of
                        Some extracted \<Rightarrow>
                          if truthy extracted
                          then (case validate_ResearchResponse L extracted of
                                  Some response \<Rightarrow>
                                    (Response response, cache_set t_set q extracted c)
                                | None \<Rightarrow> (HTTPException 500 ''Research workflow failed'', c))
                          else (HTTPException 500 ''Failed to parse agent response as valid JSON'', c)
                      | None \<Rightarrow>
                          (HTTPException 500 ''Failed to parse agent response as valid JSON'', c)))))"

section \<open>Example values\<close>

text \<open>
  A library instance that coerces only values already of the field's type (and an \<open>int\<close> to
  a \<open>float\<close>), the example paper of \<open>schemas.py\<close> with a chosen score, a provider record
  and a provider; then a final message of the analyst with its parsed form, the response it
  validates to and the text \<open>model_dump_json\<close> gives for it, a \<open>json.loads\<close> that knows these
  texts, a transcript, a final message that wraps its payload in a fenced block, and a cache
  filled at five different times.
\<close>

definition exact_lib :: pylib where
  "exact_lib =
     \<lparr>json_loads = (\<lambda>s. None),
      coerce_str = (\<lambda>j. case j of JStr s \<Rightarrow> Some s | _ \<Rightarrow> None),
      coerce_int = (\<lambda>j. case j of JInt i \<Rightarrow> Some i | _ \<Rightarrow> None),
      coerce_float = (\<lambda>j. case j of JFloat x \<Rightarrow> Some x | JInt i \<Rightarrow> Some (of_int i) | _ \<Rightarrow> None),
      model_dump_json = (\<lambda>r. query r)\<rparr>"

definition paper_ex :: "real \<Rightarrow> json" where
  "paper_ex score =
     JObj [(''title'', JStr ''Retrieval-Augmented Generation for Knowledge-Intensive NLP Tasks''),
           (''pdf_link'', JStr ''https://arxiv.org/pdf/2005.11401.pdf''),
           (''authors'', JStr ''Patrick Lewis, Ethan Perez, Aleksandra Piktus''),
           (''summary'', JStr ''This paper introduces RAG''),
           (''matching_score'', JFloat score)]"

definition result_ex :: arxiv_result where
  "result_ex =
     \<lparr>r_title = ''Retrieval-Augmented Generation for Knowledge-Intensive NLP Tasks'',
      r_pdf_url = ''https://arxiv.org/pdf/2005.11401v4'',
      r_authors = [''Patrick Lewis'', ''Ethan Perez''],
      r_summary = ''Large pre-trained language models'',
      r_published = Some ''2020-05-22T21:34:34+00:00'',
      r_entry_id = ''http://arxiv.org/abs/2005.11401v4''\<rparr>"

definition provider_ex :: provider where
  "provider_ex expr limit = (if limit \<le> 100 then Inr [result_ex] else Inl (HTTPError ''400''))"

definition payload_ex :: string where
  \<open>payload_ex = ''{"query": "rag", "total_results": 0, "papers": []}''\<close>

definition dumped_ex :: string where
  \<open>dumped_ex = ''{'' @ [CHR 0x0A] @ ''  "query": "rag",'' @ [CHR 0x0A] @
                ''  "total_results": 0,'' @ [CHR 0x0A] @ ''  "papers": []'' @ [CHR 0x0A] @ ''}''\<close>

definition parsed_ex :: json where
  "parsed_ex = JObj [(''query'', JStr ''rag''), (''total_results'', JInt 0), (''papers'', JArr [])]"

definition response_ex :: ResearchResponse where
  "response_ex = \<lparr>query = ''rag'', total_results = 0, papers = []\<rparr>"

definition unvalidated_ex :: string where
  \<open>unvalidated_ex = ''{"papers": 3}''\<close>

definition lib_ex :: pylib where
  "lib_ex = exact_lib
     \<lparr>json_loads := map_of [(payload_ex, parsed_ex), (dumped_ex, parsed_ex),
                            (unvalidated_ex, JObj [(''papers'', JInt 3)])],
      model_dump_json := (\<lambda>r. if r = response_ex then dumped_ex else [])\<rparr>"

definition transcript_ex :: "message list" where
  "transcript_ex =
     [TextContent ''Please search for academic papers about: rag'',
      OtherContent,
      TextContent ''No papers were found. RESEARCH_COMPLETE'',
      TextContent (payload_ex @ '' TERMINATE'')]"

definition fenced_ex :: string where
  \<open>fenced_ex = ''The {final} papers: ```json'' @ [CHR 0x0A] @ payload_ex @ [CHR 0x0A] @ ''```''\<close>

definition team_ex :: "message list \<Rightarrow> team" where
  "team_ex messages task = Inr messages"

text \<open>The query "Stra\<open>U+00DF\<close>e", which differs from "STRASSE" only in case.\<close>

definition strasse_ex :: string where
  "strasse_ex = ''Stra'' @ [CHR 0xDF] @ ''e''"

definition cache_ex :: cache where
  "cache_ex = cache_set 5000 ''Epsilon'' (JObj [(''query'', JStr ''Epsilon'')])
             (cache_set 4000 ''delta '' (JObj [(''query'', JStr ''delta '')])
             (cache_set 3000 '' Gamma'' (JObj [(''query'', JStr '' Gamma'')])
             (cache_set 100 ''BETA'' (JObj [(''query'', JStr ''BETA'')])
             (cache_set 0 ''alpha'' (JObj [(''query'', JStr ''alpha'')]) []))))"

section \<open>Properties of the cache\<close>

lemma cache_set_distinct:
  "distinct (map fst c) \<Longrightarrow> distinct (map fst (cache_set now q r c))"
  by (simp add: cache_set_def Let_def distinct_update)

lemma cache_get_distinct:
  "distinct (map fst c) \<Longrightarrow> distinct (map fst (snd (cache_get now q c)))"
  by (simp add: cache_get_def Let_def distinct_delete split: option.split)

lemma length_delete_present:
  "distinct (map fst c) \<Longrightarrow> map_of c k = Some e \<Longrightarrow> Suc (length (AList.delete k c)) = length c"
proof (induction c)
  case Nil
  then show ?case by simp
next
  case (Cons p c)
  obtain k' e' where p: "p = (k', e')" by (cases p)
  show ?case
  proof (cases "k' = k")
    case True
    with Cons.prems p have "k \<notin> fst ` set c" by auto
    then have "AList.delete k c = c"
      by (simp add: delete_id)
    with True p show ?thesis by simp
  next
    case False
    with Cons p show ?thesis by simp
  qed
qed

lemma valid_delete_expired:
  "distinct (map fst c) \<Longrightarrow> map_of c k = Some e \<Longrightarrow> \<not> P e \<Longrightarrow>
   length (filter P (map snd (AList.delete k c))) = length (filter P (map snd c))"
proof (induction c)
  case Nil
  then show ?case by simp
next
  case (Cons p c)
  obtain k' e' where p: "p = (k', e')" by (cases p)
  show ?case
  proof (cases "k' = k")
    case True
    with Cons.prems p have "k \<notin> fst ` set c" and "e' = e" by auto
    then have "AList.delete k c = c"
      by (simp add: delete_id)
    with True p \<open>e' = e\<close> Cons.prems(3) show ?thesis by simp
  next
    case False
    with Cons p show ?thesis by simp
  qed
qed

lemma cache_get_fresh:
  "map_of c (normalize_cache_key q) = Some e \<Longrightarrow> now - timestamp e \<le> 3600 \<Longrightarrow>
   cache_get now q c = (Some (result e), c)"
  by (simp add: cache_get_def CACHE_TTL_SECONDS_def Let_def)

lemma cache_get_stale:
  "map_of c (normalize_cache_key q) = Some e \<Longrightarrow> now - timestamp e > 3600 \<Longrightarrow>
   cache_get now q c = (None, AList.delete (normalize_cache_key q) c)"
  by (simp add: cache_get_def CACHE_TTL_SECONDS_def Let_def)

lemma cache_get_absent:
  "map_of c (normalize_cache_key q) = None \<Longrightarrow> cache_get now q c = (None, c)"
  by (simp add: cache_get_def)

lemma cache_get_other_key:
  "k \<noteq> normalize_cache_key q \<Longrightarrow> map_of (snd (cache_get now q c)) k = map_of c k"
  by (simp add: cache_get_def Let_def delete_conv split: option.split)

lemma cache_set_other_key:
  "k \<noteq> normalize_cache_key q \<Longrightarrow> map_of (cache_set now q r c) k = map_of c k"
  by (simp add: cache_set_def Let_def update_conv)

lemma cache_set_same_key:
  "map_of (cache_set now q r c) (normalize_cache_key q) = Some \<lparr>result = r, timestamp = now\<rparr>"
  by (simp add: cache_set_def Let_def update_conv)

lemmas str_eval = normalize_cache_key_def lower_def strip_def isspace_def lower_char_def
  upper_latin_def lower_latin_def

lemma cache_ex_eq:
  "cache_ex =
     [(''alpha'', \<lparr>result = JObj [(''query'', JStr ''alpha'')], timestamp = 0\<rparr>),
      (''beta'', \<lparr>result = JObj [(''query'', JStr ''BETA'')], timestamp = 100\<rparr>),
      (''gamma'', \<lparr>result = JObj [(''query'', JStr '' Gamma'')], timestamp = 3000\<rparr>),
      (''delta'', \<lparr>result = JObj [(''query'', JStr ''delta '')], timestamp = 4000\<rparr>),
      (''epsilon'', \<lparr>result = JObj [(''query'', JStr ''Epsilon'')], timestamp = 5000\<rparr>)]"
  by (simp add: cache_ex_def cache_set_def str_eval)

text \<open>
  C3.  When the cache holds an entry \<open>e\<close> under the normalised key of \<open>q\<close>: a \<open>cache_get\<close> at a
  time \<open>now\<close> with \<open>now - timestamp e \<le> 3600\<close> returns exactly the stored data and leaves the
  cache as it is; with \<open>now - timestamp e > 3600\<close> it returns a miss and deletes the entry,
  so the key is no longer in the cache, any later \<open>cache_stats\<close> counts one entry fewer, and
  the count of valid entries is unchanged.  Expiry is checked nowhere else: a \<open>cache_get\<close>
  leaves every other key alone, whatever its age, and so does a \<open>cache_set\<close>.
\<close>

theorem cache_get_ttl:
  "map_of c (normalize_cache_key q) = Some e \<Longrightarrow>
     (now - timestamp e \<le> 3600 \<longrightarrow> cache_get now q c = (Some (result e), c)) \<and>
     (now - timestamp e > 3600 \<longrightarrow>
        fst (cache_get now q c) = None \<and>
        snd (cache_get now q c) = AList.delete (normalize_cache_key q) c \<and>
        map_of (snd (cache_get now q c)) (normalize_cache_key q) = None \<and>
        (distinct (map fst c) \<longrightarrow>
           Suc (total_entries (cache_stats now' (snd (cache_get now q c))))
             = total_entries (cache_stats now' c) \<and>
           valid_entries (cache_stats now (snd (cache_get now q c)))
             = valid_entries (cache_stats now c))) \<and>
     (\<forall>k. k \<noteq> normalize_cache_key q \<longrightarrow> map_of (snd (cache_get now q c)) k = map_of c k) \<and>
     (\<forall>k q' r. k \<noteq> normalize_cache_key q' \<longrightarrow> map_of (cache_set now q' r c) k = map_of c k)"
proof (intro conjI impI allI)
  assume e: "map_of c (normalize_cache_key q) = Some e"
  show "cache_get now q c = (Some (result e), c)" if "now - timestamp e \<le> 3600"
    using e that by (rule cache_get_fresh)
  show "map_of (snd (cache_get now q c)) k = map_of c k" if "k \<noteq> normalize_cache_key q" for k
    using that by (rule cache_get_other_key)
  show "map_of (cache_set now q' r c) k = map_of c k" if "k \<noteq> normalize_cache_key q'" for k q' r
    using that by (rule cache_set_other_key)
  assume old: "3600 < now - timestamp e"
  have st: "cache_get now q c = (None, AList.delete (normalize_cache_key q) c)"
    using e old by (rule cache_get_stale)
  show "fst (cache_get now q c) = None" by (simp add: st)
  show "snd (cache_get now q c) = AList.delete (normalize_cache_key q) c" by (simp add: st)
  show "map_of (snd (cache_get now q c)) (normalize_cache_key q) = None"
    by (simp add: st delete_conv)
  assume d: "distinct (map fst c)"
  show "Suc (total_entries (cache_stats now' (snd (cache_get now q c))))
          = total_entries (cache_stats now' c)"
    using length_delete_present [OF d e] by (simp add: st cache_stats_def)
  have "\<not> now - timestamp e \<le> CACHE_TTL_SECONDS"
    using old by (simp add: CACHE_TTL_SECONDS_def)
  from valid_delete_expired [OF d e, of "\<lambda>entry. now - timestamp entry \<le> CACHE_TTL_SECONDS", OF this]
  show "valid_entries (cache_stats now (snd (cache_get now q c)))
          = valid_entries (cache_stats now c)"
    by (simp add: st cache_stats_def)
qed

theorem cache_get_ttl_witness:
  "cache_get 3700 '' Beta '' cache_ex = (Some (JObj [(''query'', JStr ''BETA'')]), cache_ex) \<and>
   cache_get 5000 '' Beta '' cache_ex
     = (None, AList.delete ''beta'' cache_ex) \<and>
   map_of (snd (cache_get 5000 '' Beta '' cache_ex)) ''beta'' = None \<and>
   total_entries (cache_stats 5000 cache_ex) = 5 \<and>
   total_entries (cache_stats 5000 (snd (cache_get 5000 '' Beta '' cache_ex))) = 4 \<and>
   valid_entries (cache_stats 5000 (snd (cache_get 5000 '' Beta '' cache_ex))) = 3 \<and>
   map_of (snd (cache_get 5000 '' Beta '' cache_ex)) ''alpha'' = map_of cache_ex ''alpha'' \<and>
   map_of (cache_set 5000 ''zeta'' JNull cache_ex) ''alpha'' = map_of cache_ex ''alpha''"
proof -
  have k: "normalize_cache_key '' Beta '' = ''beta''"
    by (simp add: str_eval)
  have e: "map_of cache_ex (normalize_cache_key '' Beta '')
             = Some \<lparr>result = JObj [(''query'', JStr ''BETA'')], timestamp = 100\<rparr>"
    by (simp add: k cache_ex_eq)
  have d: "distinct (map fst cache_ex)"
    by (simp add: cache_ex_eq)
  have z: "normalize_cache_key ''zeta'' = ''zeta''"
    by (simp add: str_eval)
  have t: "total_entries (cache_stats 5000 cache_ex) = 5"
          "valid_entries (cache_stats 5000 cache_ex) = 3"
    by (simp_all add: cache_stats_def cache_ex_eq CACHE_TTL_SECONDS_def)
  note fresh = cache_get_ttl [OF e, of 3700 5000]
  note stale = cache_get_ttl [OF e, of 5000 5000]
  from fresh stale d k z t show ?thesis
    by (auto simp add: prod_eq_iff)
qed

text \<open>
  C4 (as amended).  Two queries that are equal after trimming surrounding whitespace and
  lower-casing (\<open>str.lower\<close>) have the same cache key.  A \<open>cache_set\<close> under one of them followed
  by a \<open>cache_set\<close> under the other overwrites the same slot (the keys of the cache do not
  change), and a \<open>cache_set\<close> under one followed, within the TTL, by a \<open>cache_get\<close> under the
  other returns the stored data.
\<close>

theorem cache_key_shared:
  "lower (strip qa) = lower (strip qb) \<Longrightarrow>
     normalize_cache_key qa = normalize_cache_key qb \<and>
     map fst (cache_set tb qb rb (cache_set ta qa ra c)) = map fst (cache_set ta qa ra c) \<and>
     map_of (cache_set tb qb rb (cache_set ta qa ra c)) (normalize_cache_key qa)
       = Some \<lparr>result = rb, timestamp = tb\<rparr> \<and>
     (tb - ta \<le> 3600 \<longrightarrow>
        cache_get tb qb (cache_set ta qa ra c) = (Some ra, cache_set ta qa ra c))"
proof -
  assume "lower (strip qa) = lower (strip qb)"
  then have k: "normalize_cache_key qa = normalize_cache_key qb"
    by (simp add: normalize_cache_key_def)
  have s: "map_of (cache_set ta qa ra c) (normalize_cache_key qb)
             = Some \<lparr>result = ra, timestamp = ta\<rparr>"
    using cache_set_same_key [of ta qa ra c] by (simp add: k)
  have in_dom: "normalize_cache_key qb \<in> fst ` set (cache_set ta qa ra c)"
    using s by (metis map_of_eq_None_iff option.distinct(1))
  have keys: "map fst (cache_set tb qb rb (cache_set ta qa ra c))
                = map fst (cache_set ta qa ra c)"
    using in_dom by (simp add: cache_set_def [of tb] Let_def update_keys)
  have over: "map_of (cache_set tb qb rb (cache_set ta qa ra c)) (normalize_cache_key qa)
                = Some \<lparr>result = rb, timestamp = tb\<rparr>"
    using cache_set_same_key [of tb qb rb] by (simp add: k)
  have hit: "cache_get tb qb (cache_set ta qa ra c) = (Some ra, cache_set ta qa ra c)"
    if "tb - ta \<le> 3600"
    using cache_get_fresh [OF s] that by simp
  from k keys over hit show ?thesis by blast
qed

theorem cache_key_shared_witness:
  "lower (strip ''  RAG Systems '') = lower (strip ''rag systems'') \<and>
   cache_get 3600 ''rag systems'' (cache_set 0 ''  RAG Systems '' (JObj [(''total_results'', JInt 0)]) [])
     = (Some (JObj [(''total_results'', JInt 0)]),
        [(''rag systems'', \<lparr>result = JObj [(''total_results'', JInt 0)], timestamp = 0\<rparr>)])"
proof -
  have h: "lower (strip ''  RAG Systems '') = lower (strip ''rag systems'')"
    by (simp add: str_eval)
  have s: "cache_set 0 ''  RAG Systems '' (JObj [(''total_results'', JInt 0)]) []
             = [(''rag systems'', \<lparr>result = JObj [(''total_results'', JInt 0)], timestamp = 0\<rparr>)]"
    by (simp add: cache_set_def str_eval)
  from cache_key_shared [OF h, where tb = 3600 and ta = 0
      and ra = "JObj [(''total_results'', JInt 0)]" and c = "[]"] h s
  show ?thesis by simp
qed

text \<open>
  With case-folding in place of lower-casing the property fails: "Stra\<open>U+00DF\<close>e" and
  "STRASSE" are equal after trimming and case-folding, but their cache keys differ, and a
  \<open>cache_get\<close> under the second one second after a \<open>cache_set\<close> under the first misses.
\<close>

theorem cache_key_casefold_counterexample:
  "spec_casefold (strip strasse_ex) = spec_casefold (strip ''STRASSE'') \<and>
   (1::real) - 0 \<le> 3600 \<and>
   normalize_cache_key strasse_ex \<noteq> normalize_cache_key ''STRASSE'' \<and>
   cache_get 1 ''STRASSE'' (cache_set 0 strasse_ex (JObj [(''total_results'', JInt 0)]) [])
     = (None, cache_set 0 strasse_ex (JObj [(''total_results'', JInt 0)]) [])"
proof -
  have fold: "spec_casefold (strip strasse_ex) = spec_casefold (strip ''STRASSE'')"
    by (simp add: spec_casefold_def casefold_char_def strasse_ex_def str_eval)
  have ka: "normalize_cache_key strasse_ex = ''stra'' @ [CHR 0xDF] @ ''e''"
    by (simp add: strasse_ex_def str_eval)
  have kb: "normalize_cache_key ''STRASSE'' = ''strasse''"
    by (simp add: str_eval)
  have miss: "map_of (cache_set 0 strasse_ex (JObj [(''total_results'', JInt 0)]) [])
                (normalize_cache_key ''STRASSE'') = None"
    by (simp add: cache_set_def ka kb)
  from fold ka kb cache_get_absent [OF miss, of 1] show ?thesis by simp
qed

text \<open>
  C10.  \<open>clear_cache\<close> reports the number of entries the cache held, which is the total that
  \<open>cache_stats\<close> reported before, and leaves the empty cache, for which \<open>cache_stats\<close> reports
  0 entries and 0 valid entries at any time.  In particular a cache with 3 valid and
  2 expired entries reports 5 removed.
\<close>

theorem clear_cache_all:
  "fst (clear_cache c) = length c \<and>
   fst (clear_cache c) = total_entries (cache_stats now c) \<and>
   snd (clear_cache c) = [] \<and>
   total_entries (cache_stats now' (snd (clear_cache c))) = 0 \<and>
   valid_entries (cache_stats now' (snd (clear_cache c))) = 0 \<and>
   (valid_entries (cache_stats now c) = 3 \<and>
    total_entries (cache_stats now c) - valid_entries (cache_stats now c) = 2
      \<longrightarrow> fst (clear_cache c) = 5)"
  by (auto simp add: clear_cache_def cache_stats_def)

theorem clear_cache_all_witness:
  "valid_entries (cache_stats 5000 cache_ex) = 3 \<and>
   total_entries (cache_stats 5000 cache_ex) - valid_entries (cache_stats 5000 cache_ex) = 2 \<and>
   clear_cache cache_ex = (5, []) \<and>
   total_entries (cache_stats 5000 (snd (clear_cache cache_ex))) = 0 \<and>
   valid_entries (cache_stats 5000 (snd (clear_cache cache_ex))) = 0"
proof -
  have t: "valid_entries (cache_stats 5000 cache_ex) = 3"
          "total_entries (cache_stats 5000 cache_ex) = 5"
    by (simp_all add: cache_stats_def cache_ex_eq CACHE_TTL_SECONDS_def)
  from clear_cache_all [of cache_ex 5000 5000] t show ?thesis
    by (simp add: prod_eq_iff cache_stats_def)
qed

section \<open>Properties of the result schema\<close>

lemmas schema_eval = validate_ResearchResponse_def validate_papers_def validate_Paper_def
  validate_matching_score_def required_str_def required_int_def as_dict_def

lemma those_map_Some: "those xs = Some ys \<longleftrightarrow> xs = map Some ys"
  by (induction xs arbitrary: ys) (auto split: option.splits)

lemma validate_matching_score_Some:
  "validate_matching_score L field = Some m \<Longrightarrow>
     (case m of
        None \<Rightarrow> field = None \<or> field = Some JNull
      | Some x \<Rightarrow> 0 \<le> x \<and> x \<le> 1 \<and> (\<exists>v. field = Some v \<and> v \<noteq> JNull \<and> coerce_float L v = Some x))"
proof (cases field)
  case None
  assume "validate_matching_score L field = Some m"
  with None show ?thesis by (simp add: validate_matching_score_def)
next
  case (Some v)
  assume m: "validate_matching_score L field = Some m"
  show ?thesis
  proof (cases "v = JNull")
    case True
    with Some m show ?thesis by (simp add: validate_matching_score_def)
  next
    case False
    with Some m obtain x where "coerce_float L v = Some x" and "0 \<le> x \<and> x \<le> 1" and "m = Some x"
      by (cases "coerce_float L v") (auto simp add: validate_matching_score_def split: if_splits)
    with Some False show ?thesis by simp
  qed
qed

lemma validate_matching_score_out_of_range:
  "v \<noteq> JNull \<Longrightarrow> coerce_float L v = Some x \<Longrightarrow> x < 0 \<or> 1 < x \<Longrightarrow>
     validate_matching_score L (Some v) = None"
  by (auto simp add: validate_matching_score_def)

lemma validate_Paper_score:
  "validate_Paper L (JObj kv) = Some p \<Longrightarrow>
     validate_matching_score L (map_of kv ''matching_score'') = Some (matching_score p)"
  by (auto simp add: validate_Paper_def as_dict_def bind_eq_Some_conv)

lemma validate_Paper_dict: "validate_Paper L j = Some p \<Longrightarrow> \<exists>kv. j = JObj kv"
  by (cases j) (simp_all add: validate_Paper_def as_dict_def)

lemma validate_Paper_score_None:
  "validate_matching_score L (map_of kv ''matching_score'') = None \<Longrightarrow> validate_Paper L (JObj kv) = None"
  by (simp add: validate_Paper_def as_dict_def bind_eq_None_conv)

lemma validate_ResearchResponse_papers:
  "validate_ResearchResponse L j = Some r \<Longrightarrow> p \<in> set (papers r) \<Longrightarrow>
     \<exists>item. validate_Paper L item = Some p"
proof -
  assume v: "validate_ResearchResponse L j = Some r" and p: "p \<in> set (papers r)"
  from v obtain kv where kv: "validate_papers L (map_of kv ''papers'') = Some (papers r)"
    by (auto simp add: validate_ResearchResponse_def bind_eq_Some_conv)
  show ?thesis
  proof (cases "map_of kv ''papers''")
    case None
    with kv p show ?thesis by (simp add: validate_papers_def)
  next
    case (Some v)
    with kv obtain items where "map (validate_Paper L) items = map Some (papers r)"
      by (cases v) (auto simp add: validate_papers_def those_map_Some)
    with p show ?thesis
      by (metis (no_types, lifting) imageE image_eqI list.set_map)
  qed
qed

lemmas lib_eval = exact_lib_def paper_ex_def

lemma paper_ex_ok:
  "validate_Paper exact_lib (paper_ex 0.95) =
     Some \<lparr>title = ''Retrieval-Augmented Generation for Knowledge-Intensive NLP Tasks'',
           pdf_link = ''https://arxiv.org/pdf/2005.11401.pdf'',
           authors = ''Patrick Lewis, Ethan Perez, Aleksandra Piktus'',
           summary = ''This paper introduces RAG'',
           matching_score = Some 0.95\<rparr>"
  by (simp add: schema_eval lib_eval)

text \<open>
  C2.  A Paper that validates has a \<open>matching_score\<close> that is absent (the key was missing or
  \<open>None\<close>) or lies in [0, 1] and is exactly the value the input coerced to: nothing is clamped.
  An input whose score coerces to a value below 0 or above 1 fails validation.  Hence every
  score present in a validated response lies in [0, 1].
\<close>

theorem Paper_matching_score_range:
  "(validate_Paper L (JObj kv) = Some p \<longrightarrow>
      (case matching_score p of
         None \<Rightarrow> map_of kv ''matching_score'' = None \<or> map_of kv ''matching_score'' = Some JNull
       | Some x \<Rightarrow> 0 \<le> x \<and> x \<le> 1 \<and>
           (\<exists>v. map_of kv ''matching_score'' = Some v \<and> coerce_float L v = Some x))) \<and>
   (map_of kv ''matching_score'' = Some v \<and> v \<noteq> JNull \<and> coerce_float L v = Some x \<and> (x < 0 \<or> 1 < x)
      \<longrightarrow> validate_Paper L (JObj kv) = None) \<and>
   (validate_ResearchResponse L j = Some r \<longrightarrow>
      (\<forall>p' \<in> set (papers r). \<forall>x'. matching_score p' = Some x' \<longrightarrow> 0 \<le> x' \<and> x' \<le> 1))"
proof (intro conjI impI ballI allI)
  assume "validate_Paper L (JObj kv) = Some p"
  then have "validate_matching_score L (map_of kv ''matching_score'') = Some (matching_score p)"
    by (rule validate_Paper_score)
  from validate_matching_score_Some [OF this]
  show "case matching_score p of
         None \<Rightarrow> map_of kv ''matching_score'' = None \<or> map_of kv ''matching_score'' = Some JNull
       | Some x \<Rightarrow> 0 \<le> x \<and> x \<le> 1 \<and>
           (\<exists>v. map_of kv ''matching_score'' = Some v \<and> coerce_float L v = Some x)"
    by (auto split: option.splits)
next
  assume "map_of kv ''matching_score'' = Some v \<and> v \<noteq> JNull \<and> coerce_float L v = Some x \<and> (x < 0 \<or> 1 < x)"
  then have "validate_matching_score L (map_of kv ''matching_score'') = None"
    using validate_matching_score_out_of_range [of v L x] by simp
  then show "validate_Paper L (JObj kv) = None"
    by (rule validate_Paper_score_None)
next
  fix p' x'
  assume r: "validate_ResearchResponse L j = Some r" and p': "p' \<in> set (papers r)"
    and x': "matching_score p' = Some x'"
  from validate_ResearchResponse_papers [OF r p'] obtain item
    where item: "validate_Paper L item = Some p'" by blast
  then obtain kv' where "item = JObj kv'"
    using validate_Paper_dict by blast
  with item have "validate_matching_score L (map_of kv' ''matching_score'') = Some (matching_score p')"
    using validate_Paper_score by blast
  from validate_matching_score_Some [OF this] x'
  show "0 \<le> x'" and "x' \<le> 1" by simp_all
qed


theorem Paper_matching_score_range_witness:
  "validate_Paper exact_lib (paper_ex 0.95) \<noteq> None \<and>
   matching_score (the (validate_Paper exact_lib (paper_ex 0.95))) = Some 0.95 \<and>
   validate_Paper exact_lib (paper_ex 1.5) = None \<and>
   validate_ResearchResponse exact_lib
     (JObj [(''query'', JStr ''RAG systems''), (''total_results'', JInt 1),
            (''papers'', JArr [paper_ex 0.95])]) \<noteq> None \<and>
   validate_ResearchResponse exact_lib
     (JObj [(''query'', JStr ''RAG systems''), (''total_results'', JInt 1),
            (''papers'', JArr [paper_ex 1.5])]) = None"
proof -
  let ?kv = "\<lambda>x. [(''title'', JStr ''Retrieval-Augmented Generation for Knowledge-Intensive NLP Tasks''),
           (''pdf_link'', JStr ''https://arxiv.org/pdf/2005.11401.pdf''),
           (''authors'', JStr ''Patrick Lewis, Ethan Perez, Aleksandra Piktus''),
           (''summary'', JStr ''This paper introduces RAG''),
           (''matching_score'', JFloat x)]"
  let ?r = "\<lambda>x. JObj [(''query'', JStr ''RAG systems''), (''total_results'', JInt 1),
            (''papers'', JArr [paper_ex x])]"
  have bad: "map_of (?kv 1.5) ''matching_score'' = Some (JFloat 1.5) \<and> JFloat 1.5 \<noteq> JNull \<and>
             coerce_float exact_lib (JFloat 1.5) = Some 1.5 \<and> ((1.5::real) < 0 \<or> (1::real) < 1.5)"
    by (simp add: exact_lib_def)
  have rej: "validate_Paper exact_lib (paper_ex 1.5) = None"
    using Paper_matching_score_range [of exact_lib "?kv 1.5" _ "JFloat 1.5" "1.5"] bad
    by (simp add: paper_ex_def)
  have ok: "validate_ResearchResponse exact_lib (?r 0.95)
              = Some \<lparr>query = ''RAG systems'', total_results = 1,
                      papers = [the (validate_Paper exact_lib (paper_ex 0.95))]\<rparr>"
    by (simp add: paper_ex_ok) (simp add: schema_eval lib_eval)
  have "validate_ResearchResponse exact_lib (?r 1.5) = None"
    using rej by (simp add: validate_ResearchResponse_def validate_papers_def as_dict_def
        required_str_def required_int_def exact_lib_def)
  with rej ok paper_ex_ok show ?thesis by simp
qed

lemma validate_ResearchResponse_Some:
  "validate_ResearchResponse L (JObj kv) = Some r \<longleftrightarrow>
     required_str L kv ''query'' = Some (query r) \<and>
     required_int L kv ''total_results'' = Some (total_results r) \<and>
     validate_papers L (map_of kv ''papers'') = Some (papers r)"
  by (cases r) (auto simp add: validate_ResearchResponse_def as_dict_def bind_eq_Some_conv)

text \<open>
  C1 (as amended).  A ResearchResponse that validates has as \<open>total_results\<close> the integer its
  input gave for that field, and as \<open>papers\<close> one validated Paper for each element of the
  input list (none when the key is absent).  The two are not compared: with any other
  integer in place of \<open>total_results\<close> the input validates as well, to the same papers.
\<close>

theorem total_results_as_given:
  "validate_ResearchResponse L (JObj kv) = Some r \<Longrightarrow>
     (\<exists>v. map_of kv ''total_results'' = Some v \<and> coerce_int L v = Some (total_results r)) \<and>
     (map_of kv ''papers'' = None \<and> papers r = [] \<or>
      (\<exists>items. map_of kv ''papers'' = Some (JArr items) \<and>
                map (validate_Paper L) items = map Some (papers r))) \<and>
     (\<forall>v' n'. coerce_int L v' = Some n' \<longrightarrow>
        validate_ResearchResponse L (JObj (AList.update ''total_results'' v' kv))
          = Some (r\<lparr>total_results := n'\<rparr>))"
proof -
  assume "validate_ResearchResponse L (JObj kv) = Some r"
  then have q: "required_str L kv ''query'' = Some (query r)"
    and n: "required_int L kv ''total_results'' = Some (total_results r)"
    and ps: "validate_papers L (map_of kv ''papers'') = Some (papers r)"
    by (simp_all add: validate_ResearchResponse_Some)
  from n have given: "\<exists>v. map_of kv ''total_results'' = Some v \<and> coerce_int L v = Some (total_results r)"
    by (simp add: required_int_def split: option.splits)
  have items: "map_of kv ''papers'' = None \<and> papers r = [] \<or>
      (\<exists>items. map_of kv ''papers'' = Some (JArr items) \<and>
                map (validate_Paper L) items = map Some (papers r))"
  proof (cases "map_of kv ''papers''")
    case None
    with ps show ?thesis by (simp add: validate_papers_def)
  next
    case (Some v)
    with ps show ?thesis
      by (cases v) (auto simp add: validate_papers_def those_map_Some)
  qed
  have any: "validate_ResearchResponse L (JObj (AList.update ''total_results'' v' kv))
          = Some (r\<lparr>total_results := n'\<rparr>)" if "coerce_int L v' = Some n'" for v' n'
    using q ps that
    by (simp add: validate_ResearchResponse_Some required_str_def required_int_def update_conv)
  from given items any show ?thesis by blast
qed

theorem total_results_as_given_witness:
  "validate_ResearchResponse exact_lib
     (JObj [(''query'', JStr ''RAG systems''), (''total_results'', JInt 1),
            (''papers'', JArr [paper_ex 0.5])]) \<noteq> None \<and>
   validate_ResearchResponse exact_lib
     (JObj [(''query'', JStr ''RAG systems''), (''total_results'', JInt 7),
            (''papers'', JArr [paper_ex 0.5])]) \<noteq> None"
proof -
  let ?kv = "[(''query'', JStr ''RAG systems''), (''total_results'', JInt 1),
            (''papers'', JArr [paper_ex 0.5])]"
  have "validate_Paper exact_lib (paper_ex 0.5) \<noteq> None"
    by (simp add: schema_eval lib_eval)
  then obtain p where "validate_Paper exact_lib (paper_ex 0.5) = Some p" by blast
  then have ok: "validate_ResearchResponse exact_lib (JObj ?kv)
              = Some \<lparr>query = ''RAG systems'', total_results = 1, papers = [p]\<rparr>"
    by (simp add: validate_ResearchResponse_def validate_papers_def as_dict_def
        required_str_def required_int_def exact_lib_def)
  have c: "coerce_int exact_lib (JInt 7) = Some 7"
    by (simp add: exact_lib_def)
  from total_results_as_given [OF ok] c
  have "validate_ResearchResponse exact_lib (JObj (AList.update ''total_results'' (JInt 7) ?kv))
          = Some (\<lparr>query = ''RAG systems'', total_results = 1, papers = [p]\<rparr>\<lparr>total_results := 7\<rparr>)"
    by blast
  with ok show ?thesis by simp
qed

text \<open>
  The schema's own example, \<open>total_results\<close> 10 with no papers, validates: a response whose
  \<open>total_results\<close> differs from the length of \<open>papers\<close> is accepted.
\<close>

theorem total_results_unchecked_counterexample:
  "validate_ResearchResponse exact_lib
     (JObj [(''query'', JStr ''RAG systems''), (''total_results'', JInt 10), (''papers'', JArr [])])
     = Some \<lparr>query = ''RAG systems'', total_results = 10, papers = []\<rparr> \<and>
   total_results \<lparr>query = ''RAG systems'', total_results = 10, papers = []\<rparr>
     \<noteq> int (length (papers \<lparr>query = ''RAG systems'', total_results = 10, papers = []\<rparr>))"
  by (simp add: schema_eval exact_lib_def)


section \<open>Properties of the lookup adapter\<close>










lemma strip_Nil: "strip [] = []"
  by (simp add: strip_def)

lemma search_arxiv_invalid:
  "strip q = [] \<or> n < 1 \<Longrightarrow> \<exists>msg. search_arxiv arxiv q n = (Inl (ValueError msg), [])"
  by (auto simp add: search_arxiv_def)

lemma search_arxiv_valid:
  "strip q \<noteq> [] \<Longrightarrow> 1 \<le> n \<Longrightarrow>
   \<exists>res tail.
     search_arxiv arxiv q n =
       (res, (if n > 100 then [Log WARNING] else [])
             @ [Log INFO, ProviderCall (build_arxiv_query q) (min n 100), tail]) \<and>
     (tail = Log INFO \<or> tail = Log ERROR) \<and>
     (\<forall>msg. res \<noteq> Inl (ValueError msg)) \<and>
     (case arxiv (build_arxiv_query q) (min n 100) of
        Inr results \<Rightarrow> res = Inr (map paper_data results)
      | Inl e \<Rightarrow> \<exists>msg. res = Inl (RuntimeError msg))"
  by (auto simp add: search_arxiv_def strip_Nil Let_def split: sum.splits provider_error.splits)

lemma paper_data_ex:
  "paper_data result_ex =
     JObj [(''title'', JStr ''Retrieval-Augmented Generation for Knowledge-Intensive NLP Tasks''),
           (''pdf_link'', JStr ''https://arxiv.org/pdf/2005.11401v4''),
           (''authors'', JStr ''Patrick Lewis, Ethan Perez''),
           (''summary'', JStr ''Large pre-trained language models''),
           (''published'', JStr ''2020-05-22T21:34:34+00:00''),
           (''arxiv_id'', JStr ''2005.11401v4'')]"
  by (simp add: paper_data_def result_ex_def last_segment_def)

text \<open>
  C9.  \<open>search_arxiv\<close> raises \<open>ValueError\<close> exactly when the query is empty or only whitespace
  or \<open>max_results < 1\<close>, and then nothing has been logged and the provider has not been
  called.  Otherwise the provider is called once, with the built query and
  \<open>min max_results 100\<close>; a warning is logged exactly when \<open>max_results > 100\<close>, and the call
  then behaves as the call with limit 100 after that warning.  A failure of the provider is
  a \<open>RuntimeError\<close>.
\<close>

theorem search_arxiv_validation:
  "((\<exists>msg. fst (search_arxiv arxiv q n) = Inl (ValueError msg)) \<longleftrightarrow> strip q = [] \<or> n < 1) \<and>
   (strip q = [] \<or> n < 1 \<longrightarrow> snd (search_arxiv arxiv q n) = []) \<and>
   (strip q \<noteq> [] \<and> 1 \<le> n \<longrightarrow>
      (\<forall>expr k. ProviderCall expr k \<in> set (snd (search_arxiv arxiv q n))
         \<longleftrightarrow> expr = build_arxiv_query q \<and> k = min n 100) \<and>
      (Log WARNING \<in> set (snd (search_arxiv arxiv q n)) \<longleftrightarrow> n > 100) \<and>
      (case arxiv (build_arxiv_query q) (min n 100) of
         Inr results \<Rightarrow> fst (search_arxiv arxiv q n) = Inr (map paper_data results)
       | Inl e \<Rightarrow> \<exists>msg. fst (search_arxiv arxiv q n) = Inl (RuntimeError msg))) \<and>
   (strip q \<noteq> [] \<and> n > 100 \<longrightarrow>
      search_arxiv arxiv q n
        = (fst (search_arxiv arxiv q 100), Log WARNING # snd (search_arxiv arxiv q 100)))"
proof (intro conjI impI)
  show "(\<exists>msg. fst (search_arxiv arxiv q n) = Inl (ValueError msg)) \<longleftrightarrow> strip q = [] \<or> n < 1"
  proof (cases "strip q = [] \<or> n < 1")
    case True
    with search_arxiv_invalid [OF True, of arxiv] show ?thesis by auto
  next
    case False
    then have "strip q \<noteq> []" and "1 \<le> n" by auto
    from search_arxiv_valid [OF this, of arxiv] False show ?thesis by auto
  qed
  show "snd (search_arxiv arxiv q n) = []" if "strip q = [] \<or> n < 1"
    using search_arxiv_invalid [OF that, of arxiv] by auto
  assume ok: "strip q \<noteq> [] \<and> 1 \<le> n"
  then obtain res tail where
    eq: "search_arxiv arxiv q n =
       (res, (if n > 100 then [Log WARNING] else [])
             @ [Log INFO, ProviderCall (build_arxiv_query q) (min n 100), tail])"
    and tail: "tail = Log INFO \<or> tail = Log ERROR"
    and res: "case arxiv (build_arxiv_query q) (min n 100) of
        Inr results \<Rightarrow> res = Inr (map paper_data results)
      | Inl e \<Rightarrow> \<exists>msg. res = Inl (RuntimeError msg)"
    using search_arxiv_valid [of q n arxiv] by blast
  show "\<forall>expr k. ProviderCall expr k \<in> set (snd (search_arxiv arxiv q n))
         \<longleftrightarrow> expr = build_arxiv_query q \<and> k = min n 100"
    using tail by (auto simp add: eq)
  show "Log WARNING \<in> set (snd (search_arxiv arxiv q n)) \<longleftrightarrow> n > 100"
    using tail by (auto simp add: eq)
  show "case arxiv (build_arxiv_query q) (min n 100) of
         Inr results \<Rightarrow> fst (search_arxiv arxiv q n) = Inr (map paper_data results)
       | Inl e \<Rightarrow> \<exists>msg. fst (search_arxiv arxiv q n) = Inl (RuntimeError msg)"
    using res by (simp add: eq split: sum.splits)
next
  assume "strip q \<noteq> [] \<and> n > 100"
  then show "search_arxiv arxiv q n
        = (fst (search_arxiv arxiv q 100), Log WARNING # snd (search_arxiv arxiv q 100))"
    by (auto simp add: search_arxiv_def strip_Nil Let_def split: sum.splits provider_error.splits)
qed

theorem search_arxiv_validation_witness:
  "fst (search_arxiv provider_ex ''   '' 10) = Inl (ValueError ''Query cannot be empty'') \<and>
   snd (search_arxiv provider_ex ''   '' 10) = [] \<and>
   fst (search_arxiv provider_ex ''rag'' 0) = Inl (ValueError ''max_results must be at least 1'') \<and>
   snd (search_arxiv provider_ex ''rag'' 0) = [] \<and>
   fst (search_arxiv provider_ex ''rag'' 250) = Inr [paper_data result_ex] \<and>
   ProviderCall ''ti:rag OR abs:rag'' 100 \<in> set (snd (search_arxiv provider_ex ''rag'' 250)) \<and>
   Log WARNING \<in> set (snd (search_arxiv provider_ex ''rag'' 250)) \<and>
   Log WARNING \<notin> set (snd (search_arxiv provider_ex ''rag'' 100))"
proof -
  have s: "strip ''   '' = []" "strip ''rag'' \<noteq> []"
    by (simp_all add: strip_def isspace_def)
  have b: "build_arxiv_query ''rag'' = ''ti:rag OR abs:rag''"
    by code_simp
  have e: "fst (search_arxiv provider_ex ''   '' 10) = Inl (ValueError ''Query cannot be empty'')"
          "fst (search_arxiv provider_ex ''rag'' 0) = Inl (ValueError ''max_results must be at least 1'')"
    by (simp_all add: search_arxiv_def s)
  note blank = search_arxiv_validation [of provider_ex "''   ''" 10]
  note zero = search_arxiv_validation [of provider_ex "''rag''" 0]
  note big = search_arxiv_validation [of provider_ex "''rag''" 250]
  note top = search_arxiv_validation [of provider_ex "''rag''" 100]
  from blank s have 1: "snd (search_arxiv provider_ex ''   '' 10) = []" by simp
  from zero have 2: "snd (search_arxiv provider_ex ''rag'' 0) = []" by simp
  from big [THEN conjunct2, THEN conjunct2, THEN conjunct1] s b have 3: "fst (search_arxiv provider_ex ''rag'' 250) = Inr [paper_data result_ex]"
    and 4: "ProviderCall ''ti:rag OR abs:rag'' 100 \<in> set (snd (search_arxiv provider_ex ''rag'' 250))"
    and 5: "Log WARNING \<in> set (snd (search_arxiv provider_ex ''rag'' 250))"
    by (simp_all add: provider_ex_def)
  from top s have 6: "Log WARNING \<notin> set (snd (search_arxiv provider_ex ''rag'' 100))"
    by simp
  from e 1 2 3 4 5 6 show ?thesis by simp
qed

section \<open>Properties of the orchestration pipeline\<close>

lemma find_idx_char_None: "find_idx [c] s = None \<longleftrightarrow> c \<notin> set s"
  by (induction s) auto

lemma rfind_idx_char_None: "rfind_idx [c] s = None \<longleftrightarrow> c \<notin> set s"
  by (induction s) (auto split: option.splits)

lemma find_idx_char_Some:
  "find_idx [c] s = Some i \<longleftrightarrow> i < length s \<and> s ! i = c \<and> (\<forall>k<i. s ! k \<noteq> c)"
proof (induction s arbitrary: i)
  case Nil
  then show ?case by simp
next
  case (Cons x xs)
  show ?case
  proof (cases "x = c")
    case True
    then show ?thesis by auto
  next
    case False
    show ?thesis
    proof (cases i)
      case 0
      with False show ?thesis by auto
    next
      case (Suc n)
      have "(\<forall>k<Suc n. (x # xs) ! k \<noteq> c) \<longleftrightarrow> (\<forall>k<n. xs ! k \<noteq> c)"
        using False by (auto simp add: less_Suc_eq_0_disj)
      with False Suc Cons.IH [of n] show ?thesis by auto
    qed
  qed
qed

lemma rfind_idx_char_Some:
  "rfind_idx [c] s = Some j \<longleftrightarrow>
     j < length s \<and> s ! j = c \<and> (\<forall>k. j < k \<and> k < length s \<longrightarrow> s ! k \<noteq> c)"
proof (induction s arbitrary: j)
  case Nil
  then show ?case by simp
next
  case (Cons x xs)
  show ?case
  proof (cases "rfind_idx [c] xs")
    case None
    then have notin: "c \<notin> set xs" by (simp add: rfind_idx_char_None)
    then have no: "\<And>k. k < length xs \<Longrightarrow> xs ! k \<noteq> c" by (metis nth_mem)
    show ?thesis
    proof (cases j)
      case 0
      with None no show ?thesis by (auto simp add: nth_Cons split: nat.splits)
    next
      case (Suc n)
      with None no show ?thesis by auto
    qed
  next
    case (Some m)
    then have m: "m < length xs" "xs ! m = c" "\<forall>k. m < k \<and> k < length xs \<longrightarrow> xs ! k \<noteq> c"
      using Cons.IH [of m] by auto
    show ?thesis
    proof (cases j)
      case 0
      have "\<not> (\<forall>k. 0 < k \<and> k < length (x # xs) \<longrightarrow> (x # xs) ! k \<noteq> c)"
        using m by (auto intro!: exI [of _ "Suc m"])
      with Some 0 show ?thesis by auto
    next
      case (Suc n)
      have "(\<forall>k. Suc n < k \<and> k < length (x # xs) \<longrightarrow> (x # xs) ! k \<noteq> c)
              \<longleftrightarrow> (\<forall>k. n < k \<and> k < length xs \<longrightarrow> xs ! k \<noteq> c)"
      proof
        assume h: "\<forall>k. Suc n < k \<and> k < length (x # xs) \<longrightarrow> (x # xs) ! k \<noteq> c"
        show "\<forall>k. n < k \<and> k < length xs \<longrightarrow> xs ! k \<noteq> c"
        proof (intro allI impI)
          fix k assume "n < k \<and> k < length xs"
          with h [rule_format, of "Suc k"] show "xs ! k \<noteq> c" by simp
        qed
      next
        assume h: "\<forall>k. n < k \<and> k < length xs \<longrightarrow> xs ! k \<noteq> c"
        show "\<forall>k. Suc n < k \<and> k < length (x # xs) \<longrightarrow> (x # xs) ! k \<noteq> c"
        proof (intro allI impI)
          fix k assume k: "Suc n < k \<and> k < length (x # xs)"
          then obtain k' where "k = Suc k'" by (cases k) auto
          with k h [rule_format, of k'] show "(x # xs) ! k \<noteq> c" by simp
        qed
      qed
      with Some Suc Cons.IH [of n] show ?thesis by auto
    qed
  qed
qed


lemma slice_braces:
  assumes "i < j" "j < length t"
    and "t ! i = CHR ''{''" "\<forall>k<i. t ! k \<noteq> CHR ''{''"
    and "t ! j = CHR ''}''" "\<forall>k. j < k \<and> k < length t \<longrightarrow> t ! k \<noteq> CHR ''}''"
  shows "(let start_idx = py_find t ''{''; end_idx = py_rfind t ''}'' + 1
    in if start_idx \<noteq> -1 \<and> end_idx > start_idx then py_slice t start_idx end_idx else t)
   = take (j - i + 1) (drop i t)"
proof -
  from assms have f: "find_idx ''{'' t = Some i" and r: "rfind_idx ''}'' t = Some j"
    by (simp_all add: find_idx_char_Some rfind_idx_char_Some)
  have "py_slice t (int i) (int j + 1) = take (j - i + 1) (drop i t)"
    using assms(1,2)
    by (simp add: py_slice_def Let_def min_def nat_diff_distrib' nat_add_distrib Suc_diff_le)
  with f r assms(1,2) show ?thesis
    by (simp add: py_find_def py_rfind_def Let_def)
qed

lemma slice_no_braces:
  assumes "\<not> (\<exists>i j. i < j \<and> j < length t \<and>
                 t ! i = CHR ''{'' \<and> (\<forall>k<i. t ! k \<noteq> CHR ''{'') \<and>
                 t ! j = CHR ''}'' \<and> (\<forall>k. j < k \<and> k < length t \<longrightarrow> t ! k \<noteq> CHR ''}''))"
  shows "(let start_idx = py_find t ''{''; end_idx = py_rfind t ''}'' + 1
    in if start_idx \<noteq> -1 \<and> end_idx > start_idx then py_slice t start_idx end_idx else t) = t"
proof (cases "find_idx ''{'' t")
  case None
  then show ?thesis by (simp add: py_find_def)
next
  case (Some i)
  note i = this
  show ?thesis
  proof (cases "rfind_idx ''}'' t")
    case None
    with i show ?thesis by (simp add: py_find_def py_rfind_def)
  next
    case (Some j)
    have "i \<noteq> j"
      using i Some by (auto simp add: find_idx_char_Some rfind_idx_char_Some)
    moreover have "\<not> i < j"
      using assms i Some by (auto simp add: find_idx_char_Some rfind_idx_char_Some)
    ultimately have "j < i" by simp
    with i Some show ?thesis by (simp add: py_find_def py_rfind_def)
  qed
qed

lemma replace_all_first:
  "old \<noteq> [] \<Longrightarrow> \<forall>k<length a. \<not> prefix old (drop k (a @ old @ b)) \<Longrightarrow>
     replace_all old new (a @ old @ b) = a @ new @ replace_all old new b"
proof (induction a)
  case Nil
  then obtain x xs where "old = x # xs" by (cases old) auto
  then show ?case by simp
next
  case (Cons y ys)
  from Cons.prems(2) [rule_format, of 0] have "\<not> prefix old (y # ys @ old @ b)" by simp
  moreover have "\<forall>k<length ys. \<not> prefix old (drop k (ys @ old @ b))"
  proof (intro allI impI)
    fix k assume "k < length ys"
    with Cons.prems(2) [rule_format, of "Suc k"] show "\<not> prefix old (drop k (ys @ old @ b))"
      by simp
  qed
  ultimately show ?case using Cons.IH [OF Cons.prems(1)] by simp
qed

lemma scan_messages_none: "\<forall>m \<in> set ms. \<not> is_candidate m \<Longrightarrow> scan_messages ms = []"
  by (induction ms) auto

lemma scan_messages_first:
  "\<forall>x \<in> set pre. \<not> is_candidate x \<Longrightarrow> is_candidate m \<Longrightarrow>
     scan_messages (pre @ m # post) = the (content_str m)"
  by (induction pre) auto

lemma is_candidate_iff:
  "is_candidate m \<longleftrightarrow>
     (\<exists>text. content_str m = Some text \<and> CHR ''{'' \<in> set text \<and>
             (\<exists>pre post. text = pre @ ''papers'' @ post))"
proof (cases "content_str m")
  case None
  then show ?thesis by (simp add: is_candidate_def)
next
  case (Some str)
  have "sublist ''{'' str \<longleftrightarrow> CHR ''{'' \<in> set str"
    by (induction str) (auto simp add: sublist_Cons_right)
  then show ?thesis
    using Some by (simp add: is_candidate_def sublist_def [of "''papers''"])
qed

lemma final_output_latest:
  assumes "i < length msgs" "is_candidate (msgs ! i)"
    and "\<forall>j. i < j \<and> j < length msgs \<longrightarrow> \<not> is_candidate (msgs ! j)"
  shows "content_str (msgs ! i) = Some (final_output msgs)"
proof -
  have split: "msgs = take i msgs @ msgs ! i # drop (Suc i) msgs"
    using assms(1) by (rule id_take_nth_drop)
  have later: "\<forall>x \<in> set (rev (drop (Suc i) msgs)). \<not> is_candidate x"
  proof
    fix x assume "x \<in> set (rev (drop (Suc i) msgs))"
    then obtain n where "n < length msgs - Suc i" and "x = msgs ! (Suc i + n)"
      by (auto simp add: in_set_conv_nth)
    with assms(3) [rule_format, of "Suc i + n"] show "\<not> is_candidate x" by simp
  qed
  have "rev msgs = rev (drop (Suc i) msgs) @ msgs ! i # rev (take i msgs)"
    by (subst split) simp
  then have "final_output msgs = the (content_str (msgs ! i))"
    using scan_messages_first [OF later assms(2)] by (simp add: final_output_def)
  moreover obtain str where "content_str (msgs ! i) = Some str"
    using assms(2) by (auto simp add: is_candidate_iff)
  ultimately show ?thesis by simp
qed

lemma clean_output_Nil: "clean_output [] = []"
  by (simp add: clean_output_def strip_def py_replace_def py_find_def)

text \<open>
  C6.  A message is a candidate when its text contains the character "{" and the substring
  "papers".  The candidate payload is the text of the last candidate of the transcript (the
  first one met scanning backward), and the workflow's result is computed from it.  When no
  message is a candidate the payload is the empty string, and since \<open>json.loads\<close> rejects
  the empty string the workflow returns the empty string.
\<close>

theorem final_output_selection:
  "(is_candidate m \<longleftrightarrow>
      (\<exists>text. content_str m = Some text \<and> CHR ''{'' \<in> set text \<and>
              (\<exists>pre post. text = pre @ ''papers'' @ post))) \<and>
   (i < length msgs \<and> is_candidate (msgs ! i) \<and>
    (\<forall>j. i < j \<and> j < length msgs \<longrightarrow> \<not> is_candidate (msgs ! j))
      \<longrightarrow> content_str (msgs ! i) = Some (final_output msgs) \<and>
          (team (''Please search for academic papers about: '' @ q) = Inr msgs
             \<longrightarrow> run_research_workflow L team q
                   = Inr (validate_output L (the (content_str (msgs ! i)))))) \<and>
   ((\<forall>m' \<in> set msgs. \<not> is_candidate m') \<longrightarrow> final_output msgs = []) \<and>
   ((\<forall>m' \<in> set msgs. \<not> is_candidate m') \<and> json_loads L [] = None \<and>
    team (''Please search for academic papers about: '' @ q) = Inr msgs
      \<longrightarrow> run_research_workflow L team q = Inr [])"
proof (intro conjI impI)
  show "is_candidate m \<longleftrightarrow>
      (\<exists>text. content_str m = Some text \<and> CHR ''{'' \<in> set text \<and>
              (\<exists>pre post. text = pre @ ''papers'' @ post))"
    by (rule is_candidate_iff)
next
  assume a: "i < length msgs \<and> is_candidate (msgs ! i) \<and>
    (\<forall>j. i < j \<and> j < length msgs \<longrightarrow> \<not> is_candidate (msgs ! j))"
  then show sel: "content_str (msgs ! i) = Some (final_output msgs)"
    using final_output_latest [of i msgs] by simp
  assume "team (''Please search for academic papers about: '' @ q) = Inr msgs"
  with sel show "run_research_workflow L team q
                   = Inr (validate_output L (the (content_str (msgs ! i))))"
    by (simp add: run_research_workflow_def)
next
  assume "\<forall>m' \<in> set msgs. \<not> is_candidate m'"
  then show "final_output msgs = []"
    by (simp add: final_output_def scan_messages_none)
next
  assume a: "(\<forall>m' \<in> set msgs. \<not> is_candidate m') \<and> json_loads L [] = None \<and>
    team (''Please search for academic papers about: '' @ q) = Inr msgs"
  then have "final_output msgs = []"
    by (simp add: final_output_def scan_messages_none)
  with a show "run_research_workflow L team q = Inr []"
    by (simp add: run_research_workflow_def validate_output_def clean_output_Nil)
qed



theorem final_output_selection_witness:
  "final_output transcript_ex = payload_ex @ '' TERMINATE'' \<and>
   run_research_workflow lib_ex (team_ex transcript_ex) ''rag'' = Inr dumped_ex \<and>
   final_output [TextContent ''Please search for academic papers about: rag'', OtherContent] = [] \<and>
   run_research_workflow lib_ex
     (team_ex [TextContent ''Please search for academic papers about: rag'', OtherContent]) ''rag''
     = Inr []"
proof -
  let ?none = "[TextContent ''Please search for academic papers about: rag'', OtherContent]"
  have last: "3 < length transcript_ex \<and> is_candidate (transcript_ex ! 3) \<and>
    (\<forall>j. 3 < j \<and> j < length transcript_ex \<longrightarrow> \<not> is_candidate (transcript_ex ! j))"
    by (simp add: transcript_ex_def is_candidate_def content_str_def payload_ex_def
        sublist_Cons_right)
  have c: "content_str (transcript_ex ! 3) = Some (payload_ex @ '' TERMINATE'')"
    by (simp add: transcript_ex_def content_str_def)
  have none: "\<forall>m' \<in> set ?none. \<not> is_candidate m'"
    by (simp add: is_candidate_def content_str_def sublist_Cons_right)
  have loads: "json_loads lib_ex [] = None"
    by (simp add: lib_ex_def payload_ex_def dumped_ex_def unvalidated_ex_def)
  have run: "team_ex msgs (''Please search for academic papers about: '' @ ''rag'') = Inr msgs" for msgs
    by (simp add: team_ex_def)
  have v: "validate_output lib_ex (payload_ex @ '' TERMINATE'') = dumped_ex"
    by code_simp
  note sel = final_output_selection [of _ 3 transcript_ex "team_ex transcript_ex" "''rag''" lib_ex]
  note emp = final_output_selection [of _ _ ?none "team_ex ?none" "''rag''" lib_ex]
  from sel last c run [of transcript_ex] v
  have 1: "final_output transcript_ex = payload_ex @ '' TERMINATE''"
    and 2: "run_research_workflow lib_ex (team_ex transcript_ex) ''rag'' = Inr dumped_ex"
    by simp_all
  from emp none loads run [of ?none]
  have 3: "final_output ?none = []"
    and 4: "run_research_workflow lib_ex (team_ex ?none) ''rag'' = Inr []"
    by simp_all
  from 1 2 3 4 show ?thesis by simp
qed

text \<open>
  C7.  Let \<open>t\<close> be the candidate text stripped, with the occurrences of "TERMINATE" removed
  from left to right, and stripped again.  When the first "{" of \<open>t\<close> comes before its last
  "}", the text parsed is the slice of \<open>t\<close> from the one to the other, both included;
  otherwise it is \<open>t\<close> itself.  When \<open>json.loads\<close> rejects that text, or the schema rejects
  what it parsed to, the result is the candidate text as it was; otherwise it is the dump of
  the validated response.  In each case the workflow returns a string: a transcript never
  makes it raise.
\<close>

theorem validate_output_fallback:
  "t = strip (py_replace ''TERMINATE'' [] (strip final)) \<Longrightarrow>
   (json_loads L (clean_output final) = None \<longrightarrow> validate_output L final = final) \<and>
   (\<forall>parsed. json_loads L (clean_output final) = Some parsed \<and>
             validate_ResearchResponse L parsed = None
        \<longrightarrow> validate_output L final = final) \<and>
   (\<forall>parsed r. json_loads L (clean_output final) = Some parsed \<and>
               validate_ResearchResponse L parsed = Some r
        \<longrightarrow> validate_output L final = model_dump_json L r) \<and>
   (\<forall>msgs. team (''Please search for academic papers about: '' @ q) = Inr msgs
        \<longrightarrow> run_research_workflow L team q = Inr (validate_output L (final_output msgs))) \<and>
   (\<forall>i j. i < j \<and> j < length t \<and>
          t ! i = CHR ''{'' \<and> (\<forall>k<i. t ! k \<noteq> CHR ''{'') \<and>
          t ! j = CHR ''}'' \<and> (\<forall>k. j < k \<and> k < length t \<longrightarrow> t ! k \<noteq> CHR ''}'')
        \<longrightarrow> clean_output final = take (j - i + 1) (drop i t)) \<and>
   (\<not> (\<exists>i j. i < j \<and> j < length t \<and>
          t ! i = CHR ''{'' \<and> (\<forall>k<i. t ! k \<noteq> CHR ''{'') \<and>
          t ! j = CHR ''}'' \<and> (\<forall>k. j < k \<and> k < length t \<longrightarrow> t ! k \<noteq> CHR ''}''))
        \<longrightarrow> clean_output final = t) \<and>
   (\<forall>body rest. strip final = body @ ''TERMINATE'' @ rest \<and>
                (\<forall>k<length body. \<not> prefix ''TERMINATE'' (drop k (strip final)))
        \<longrightarrow> py_replace ''TERMINATE'' [] (strip final)
              = body @ py_replace ''TERMINATE'' [] rest)"
proof -
  assume t: "t = strip (py_replace ''TERMINATE'' [] (strip final))"
  have co: "clean_output final =
     (let start_idx = py_find t ''{''; end_idx = py_rfind t ''}'' + 1
      in if start_idx \<noteq> -1 \<and> end_idx > start_idx then py_slice t start_idx end_idx else t)"
    by (simp add: clean_output_def t Let_def)
  have fail1: "json_loads L (clean_output final) = None \<longrightarrow> validate_output L final = final"
    by (simp add: validate_output_def)
  have fail2: "\<forall>parsed. json_loads L (clean_output final) = Some parsed \<and>
             validate_ResearchResponse L parsed = None
        \<longrightarrow> validate_output L final = final"
    by (simp add: validate_output_def)
  have ok: "\<forall>parsed r. json_loads L (clean_output final) = Some parsed \<and>
               validate_ResearchResponse L parsed = Some r
        \<longrightarrow> validate_output L final = model_dump_json L r"
    by (simp add: validate_output_def)
  have run: "\<forall>msgs. team (''Please search for academic papers about: '' @ q) = Inr msgs
        \<longrightarrow> run_research_workflow L team q = Inr (validate_output L (final_output msgs))"
    by (simp add: run_research_workflow_def)
  have slice: "\<forall>i j. i < j \<and> j < length t \<and>
          t ! i = CHR ''{'' \<and> (\<forall>k<i. t ! k \<noteq> CHR ''{'') \<and>
          t ! j = CHR ''}'' \<and> (\<forall>k. j < k \<and> k < length t \<longrightarrow> t ! k \<noteq> CHR ''}'')
        \<longrightarrow> clean_output final = take (j - i + 1) (drop i t)"
    unfolding co using slice_braces [of _ _ t] by blast
  have whole: "\<not> (\<exists>i j. i < j \<and> j < length t \<and>
          t ! i = CHR ''{'' \<and> (\<forall>k<i. t ! k \<noteq> CHR ''{'') \<and>
          t ! j = CHR ''}'' \<and> (\<forall>k. j < k \<and> k < length t \<longrightarrow> t ! k \<noteq> CHR ''}''))
        \<longrightarrow> clean_output final = t"
    unfolding co using slice_no_braces [of t] by blast
  have token: "\<forall>body rest. strip final = body @ ''TERMINATE'' @ rest \<and>
                (\<forall>k<length body. \<not> prefix ''TERMINATE'' (drop k (strip final)))
        \<longrightarrow> py_replace ''TERMINATE'' [] (strip final)
              = body @ py_replace ''TERMINATE'' [] rest"
  proof (intro allI impI)
    fix body rest
    assume a: "strip final = body @ ''TERMINATE'' @ rest \<and>
                (\<forall>k<length body. \<not> prefix ''TERMINATE'' (drop k (strip final)))"
    then have eq: "strip final = body @ ''TERMINATE'' @ rest"
      and no: "\<forall>k<length body. \<not> prefix ''TERMINATE'' (drop k (strip final))"
      by blast+
    from no have "\<forall>k<length body. \<not> prefix ''TERMINATE'' (drop k (body @ ''TERMINATE'' @ rest))"
      unfolding eq .
    then have "replace_all ''TERMINATE'' [] (body @ ''TERMINATE'' @ rest)
                 = body @ [] @ replace_all ''TERMINATE'' [] rest"
      by (rule replace_all_first [rotated]) simp
    then show "py_replace ''TERMINATE'' [] (strip final) = body @ py_replace ''TERMINATE'' [] rest"
      unfolding eq by (simp add: py_replace_def)
  qed
  from fail1 fail2 ok run slice whole token show ?thesis by blast
qed


theorem validate_output_fallback_witness:
  "clean_output (payload_ex @ '' TERMINATE'') = payload_ex \<and>
   validate_output lib_ex (payload_ex @ '' TERMINATE'') = dumped_ex \<and>
   validate_output lib_ex unvalidated_ex = unvalidated_ex \<and>
   validate_output lib_ex ''{papers} TERMINATE'' = ''{papers} TERMINATE'' \<and>
   py_replace ''TERMINATE'' [] (strip ''{} TERMINATE'') = ''{} ''"
proof -
  have t: "payload_ex = strip (py_replace ''TERMINATE'' [] (strip (payload_ex @ '' TERMINATE'')))"
    by code_simp
  have b: "0 < (49::nat) \<and> 49 < length payload_ex \<and>
          payload_ex ! 0 = CHR ''{'' \<and> (\<forall>k<0::nat. payload_ex ! k \<noteq> CHR ''{'') \<and>
          payload_ex ! 49 = CHR ''}'' \<and>
          (\<forall>k. 49 < k \<and> k < length payload_ex \<longrightarrow> payload_ex ! k \<noteq> CHR ''}'')"
    by (simp add: payload_ex_def)
  have tk: "take (49 - 0 + 1) (drop 0 payload_ex) = payload_ex"
    by (simp add: payload_ex_def)
  note good = validate_output_fallback [OF t, of lib_ex]
  from good b tk have 1: "clean_output (payload_ex @ '' TERMINATE'') = payload_ex"
    by metis
  have l: "json_loads lib_ex payload_ex = Some parsed_ex"
    by (simp add: lib_ex_def)
  have v: "validate_ResearchResponse lib_ex parsed_ex = Some response_ex"
    by (simp add: schema_eval lib_ex_def exact_lib_def parsed_ex_def response_ex_def)
  have d: "model_dump_json lib_ex response_ex = dumped_ex"
    by (simp add: lib_ex_def)
  from good l v d have 2: "validate_output lib_ex (payload_ex @ '' TERMINATE'') = dumped_ex"
    unfolding 1 by metis
  have cu: "clean_output unvalidated_ex = unvalidated_ex"
    by code_simp
  have lu: "json_loads lib_ex (clean_output unvalidated_ex) = Some (JObj [(''papers'', JInt 3)])"
    unfolding cu by code_simp
  have vu: "validate_ResearchResponse lib_ex (JObj [(''papers'', JInt 3)]) = None"
    by (simp add: schema_eval)
  from validate_output_fallback [OF refl, of lib_ex unvalidated_ex] lu vu
  have 3: "validate_output lib_ex unvalidated_ex = unvalidated_ex"
    by blast
  have lp: "json_loads lib_ex (clean_output ''{papers} TERMINATE'') = None"
    by code_simp
  from validate_output_fallback [OF refl, of lib_ex "''{papers} TERMINATE''"] lp
  have 4: "validate_output lib_ex ''{papers} TERMINATE'' = ''{papers} TERMINATE''"
    by blast
  have s: "strip ''{} TERMINATE'' = ''{} '' @ ''TERMINATE'' @ []"
    by (simp add: strip_def isspace_def)
  have k: "\<forall>k<length ''{} ''. \<not> prefix ''TERMINATE'' (drop k (strip ''{} TERMINATE''))"
    unfolding s by (auto simp add: less_Suc_eq)
  from validate_output_fallback [OF refl, of lib_ex "''{} TERMINATE''"] s k
  have "py_replace ''TERMINATE'' [] (strip ''{} TERMINATE'') = ''{} '' @ py_replace ''TERMINATE'' [] []"
    by blast
  then have 5: "py_replace ''TERMINATE'' [] (strip ''{} TERMINATE'') = ''{} ''"
    by (simp add: py_replace_def)
  from 1 2 3 4 5 show ?thesis by simp
qed


section \<open>Properties of the boundary service\<close>

lemma set_delete_subset: "set (AList.delete k c) \<subseteq> set c"
  by (auto simp add: AList.delete_eq)

lemma set_update_subset: "set (AList.update k v c) \<subseteq> insert (k, v) (set c)"
  by (induction c) auto

lemma cache_get_subset: "set (snd (cache_get now q c)) \<subseteq> set c"
  using set_delete_subset [of "normalize_cache_key q" c]
  by (simp add: cache_get_def Let_def split: option.splits)

lemma cache_get_member:
  "fst (cache_get now q c) = Some d \<Longrightarrow> \<exists>e \<in> snd ` set c. result e = d"
  by (auto simp add: cache_get_def Let_def split: option.splits if_splits dest!: map_of_SomeD
      intro!: bexI [of _ "(normalize_cache_key q, _)"])

lemma cache_set_entries:
  "e \<in> snd ` set (cache_set now q v c) \<Longrightarrow> e \<in> snd ` set c \<or> result e = v"
  using set_update_subset [of "normalize_cache_key q" "\<lparr>result = v, timestamp = now\<rparr>" c]
  by (auto simp add: cache_set_def Let_def)

lemma research_cases:
  "research L team t_get t_set q c = (out, c') \<Longrightarrow>
     c' = snd (cache_get t_get q c) \<and>
       ((\<exists>d r. fst (cache_get t_get q c) = Some d \<and> truthy d \<and>
               validate_ResearchResponse L d = Some r \<and> out = Response r) \<or>
        (\<exists>d. fst (cache_get t_get q c) = Some d \<and> truthy d \<and>
               validate_ResearchResponse L d = None \<and> out = Unhandled) \<or>
        (\<exists>detail. out = HTTPException 500 detail)) \<or>
     (\<exists>res v r. run_research_workflow L team q = Inr res \<and>
         (json_loads L res = Some v \<or>
          json_loads L res = None \<and> extract_json_from_text L res = Some v) \<and>
         validate_ResearchResponse L v = Some r \<and> out = Response r \<and>
         c' = cache_set t_set q v (snd (cache_get t_get q c)))"
  by (cases "cache_get t_get q c")
    (auto simp add: research_def Let_def split: option.splits sum.splits if_splits)

text \<open>
  C8.  After \<open>research\<close> the cache is the one \<open>cache_get\<close> left, unless the workflow returned a
  text that parsed (directly, or failing that through \<open>extract_json_from_text\<close>) to a value
  that validated as a ResearchResponse: then that value, and nothing else, has been stored
  under the query and the validated response is returned.  A returned response is always
  the result of a successful validation; in every other case the caller gets an error
  (status 500, or the validation error of a cached value) and nothing is stored.  Hence a
  cache whose entries all validate keeps that property, and with such a cache the error is
  always an \<open>HTTPException\<close>.
\<close>

theorem research_caches_validated:
  "research L team t_get t_set q c = (out, c') \<Longrightarrow>
     (c' = snd (cache_get t_get q c) \<or>
      (\<exists>res v r. run_research_workflow L team q = Inr res \<and>
         (json_loads L res = Some v \<or>
          json_loads L res = None \<and> extract_json_from_text L res = Some v) \<and>
         validate_ResearchResponse L v = Some r \<and> out = Response r \<and>
         c' = cache_set t_set q v (snd (cache_get t_get q c)))) \<and>
     (\<forall>r. out = Response r \<longrightarrow> (\<exists>v. validate_ResearchResponse L v = Some r)) \<and>
     ((\<forall>r. out \<noteq> Response r) \<longrightarrow>
        c' = snd (cache_get t_get q c) \<and>
        (out = Unhandled \<or> (\<exists>detail. out = HTTPException 500 detail))) \<and>
     ((\<forall>e \<in> snd ` set c. validate_ResearchResponse L (result e) \<noteq> None) \<longrightarrow>
        (\<forall>e \<in> snd ` set c'. validate_ResearchResponse L (result e) \<noteq> None) \<and>
        out \<noteq> Unhandled)"
proof -
  assume run: "research L team t_get t_set q c = (out, c')"
  note cases = research_cases [OF run]
  have stored: "c' = snd (cache_get t_get q c) \<or>
      (\<exists>res v r. run_research_workflow L team q = Inr res \<and>
         (json_loads L res = Some v \<or>
          json_loads L res = None \<and> extract_json_from_text L res = Some v) \<and>
         validate_ResearchResponse L v = Some r \<and> out = Response r \<and>
         c' = cache_set t_set q v (snd (cache_get t_get q c)))"
    using cases by blast
  have whole: "\<forall>r. out = Response r \<longrightarrow> (\<exists>v. validate_ResearchResponse L v = Some r)"
    using cases by auto
  have err: "(\<forall>r. out \<noteq> Response r) \<longrightarrow>
        c' = snd (cache_get t_get q c) \<and>
        (out = Unhandled \<or> (\<exists>detail. out = HTTPException 500 detail))"
    using cases by auto
  have inv: "(\<forall>e \<in> snd ` set c'. validate_ResearchResponse L (result e) \<noteq> None) \<and>
        out \<noteq> Unhandled"
    if good: "\<forall>e \<in> snd ` set c. validate_ResearchResponse L (result e) \<noteq> None"
  proof
    have c1: "\<forall>e \<in> snd ` set (snd (cache_get t_get q c)).
                 validate_ResearchResponse L (result e) \<noteq> None"
      using good cache_get_subset [of t_get q c] by blast
    show "\<forall>e \<in> snd ` set c'. validate_ResearchResponse L (result e) \<noteq> None"
    proof
      fix e assume e: "e \<in> snd ` set c'"
      from stored show "validate_ResearchResponse L (result e) \<noteq> None"
      proof
        assume "c' = snd (cache_get t_get q c)"
        with c1 e show ?thesis by blast
      next
        assume "\<exists>res v r. run_research_workflow L team q = Inr res \<and>
         (json_loads L res = Some v \<or>
          json_loads L res = None \<and> extract_json_from_text L res = Some v) \<and>
         validate_ResearchResponse L v = Some r \<and> out = Response r \<and>
         c' = cache_set t_set q v (snd (cache_get t_get q c))"
        then obtain v r where v: "validate_ResearchResponse L v = Some r"
          and c': "c' = cache_set t_set q v (snd (cache_get t_get q c))"
          by blast
        from e c' cache_set_entries
        have "e \<in> snd ` set (snd (cache_get t_get q c)) \<or> result e = v" by blast
        with c1 v show ?thesis by auto
      qed
    qed
    show "out \<noteq> Unhandled"
    proof
      assume u: "out = Unhandled"
      with cases obtain d where d: "fst (cache_get t_get q c) = Some d"
        and bad: "validate_ResearchResponse L d = None"
        by auto
      from cache_get_member [OF d] good bad show False by auto
    qed
  qed
  from stored whole err inv show ?thesis by blast
qed

theorem research_caches_validated_witness:
  "research lib_ex (team_ex transcript_ex) 10 20 ''RAG'' []
     = (Response response_ex, [(''rag'', \<lparr>result = parsed_ex, timestamp = 20\<rparr>)]) \<and>
   validate_ResearchResponse lib_ex parsed_ex = Some response_ex \<and>
   research lib_ex (team_ex [TextContent fenced_ex]) 10 20 ''RAG'' []
     = (Response response_ex, [(''rag'', \<lparr>result = parsed_ex, timestamp = 20\<rparr>)]) \<and>
   research lib_ex (team_ex [TextContent ''RESEARCH_COMPLETE'']) 10 20 ''RAG'' cache_ex
     = (HTTPException 500 ''Failed to parse agent response as valid JSON'', cache_ex)"
proof -
  have 1: "research lib_ex (team_ex transcript_ex) 10 20 ''RAG'' []
     = (Response response_ex, [(''rag'', \<lparr>result = parsed_ex, timestamp = 20\<rparr>)])"
    by code_simp
  have 2: "research lib_ex (team_ex [TextContent fenced_ex]) 10 20 ''RAG'' []
     = (Response response_ex, [(''rag'', \<lparr>result = parsed_ex, timestamp = 20\<rparr>)])"
    by code_simp
  have 3: "research lib_ex (team_ex [TextContent ''RESEARCH_COMPLETE'']) 10 20 ''RAG'' cache_ex
     = (HTTPException 500 ''Failed to parse agent response as valid JSON'', cache_ex)"
    by code_simp
  from research_caches_validated [OF 1] have "\<exists>v. validate_ResearchResponse lib_ex v = Some response_ex"
    by blast
  moreover have "validate_ResearchResponse lib_ex parsed_ex = Some response_ex"
    by (simp add: schema_eval lib_ex_def exact_lib_def parsed_ex_def response_ex_def)
  ultimately show ?thesis using 1 2 3 research_caches_validated [OF 3] by simp
qed


end
